theory Spec2Isabelle
  imports Main "HOL-Library.Sublist" "HOL-Library.Log_Nat"
begin

section \<open>Data model\<close>

text \<open>
  The notification kinds of the Prisma client (\<open>NotificationType\<close>), as the switch of
  \<open>getColorForType\<close> and the handlers name them.
\<close>

datatype notification_type =
    CLIP_APPROVED | CLIP_REJECTED | CAMPAIGN_ACCEPTED | CAMPAIGN_REJECTED
  | CAMPAIGN_ENDING | CAMPAIGN_ENDED | NEW_CAMPAIGN | STUDIO_INVITE | CLIP_MILESTONE
  | PAYMENT_COMPLETED | PAYMENT_CREDITED | PAYMENT_PROCESSING | PAYMENT_ERROR
  | SYSTEM_ALERT | DISCORD_DISCONNECTED | WALLET_NOT_CONFIGURED | PROFILE_INCOMPLETE

text \<open>
  \<open>metadata\<close> is a \<open>Record<string, unknown>\<close>: the handlers put strings and numbers
  in it. The numbers of the payloads are integers (minor units, counts).
\<close>

datatype jvalue = JString string | JNumber int

type_synonym metadata_t = "(string \<times> jvalue) list"

text \<open>A row of the notification table. \<open>nid\<close> is the column \<open>id\<close>, \<open>ntype\<close> is \<open>type\<close>.\<close>

record notification =
  nid :: string
  userId :: string
  ntype :: notification_type
  title :: string
  message :: "string option"
  link :: "string option"
  metadata :: "metadata_t option"
  isRead :: bool
  createdAt :: nat

text \<open>
  What a rejected promise carries: an \<open>Error\<close> with its message, or any other value
  (the \<open>catch\<close> blocks test \<open>error instanceof Error\<close>).
\<close>

datatype thrown = Error string | NonError

text \<open>
  What the service functions throw: \<open>notFound(msg)\<close>, \<open>forbidden(msg)\<close> of
  \<open>lib/errors\<close>, or whatever a store call rejected with.
\<close>

datatype service_error = NotFound string | Forbidden string | Rejected thrown

datatype level = Debug | Info | Warn | Err

text \<open>The body of the request \<open>deliverDiscord\<close> posts.\<close>

record embed_field =
  f_name :: string
  f_value :: string
  f_inline :: bool

record dm_request =
  r_url :: string
  r_userId :: string
  r_title :: string
  r_description :: string
  r_color :: nat
  r_fields :: "embed_field list option"
  r_timeout :: nat
  r_contentType :: string

text \<open>
  The environment of a run: the configuration, and the behaviour of everything outside
  the process. Every call that leaves the process (a store query, the HTTP post) is
  numbered by the counter \<open>calls\<close> of the world; \<open>fault env k\<close> says whether call
  number \<open>k\<close> is rejected and with what, \<open>gen_id env k\<close> and \<open>now env k\<close> are the
  identifier and the timestamp the store would give to a row created by call \<open>k\<close>.
\<close>

record env =
  discordServiceUrl :: "string option"
  fault :: "nat \<Rightarrow> thrown option"
  gen_id :: "nat \<Rightarrow> string"
  now :: "nat \<Rightarrow> nat"

text \<open>
  The state the code acts on: the notification table, the number of external calls made
  so far, the requests posted to the discord service, the log, and the number of
  acknowledgements given to the consumer runtime.
\<close>

record world =
  rows :: "notification list"
  calls :: nat
  outbox :: "dm_request list"
  logs :: "(level \<times> string) list"
  acks :: nat

definition log :: "level \<Rightarrow> string \<Rightarrow> world \<Rightarrow> world" where
  "log l s w = w\<lparr>logs := logs w @ [(l, s)]\<rparr>"

definition tick :: "world \<Rightarrow> world" where
  "tick w = w\<lparr>calls := Suc (calls w)\<rparr>"

text \<open>JavaScript truthiness of an optional string: \<open>undefined\<close> and \<open>''\<close> are falsy.\<close>

fun truthy :: "string option \<Rightarrow> bool" where
  "truthy None = False"
| "truthy (Some s) = (s \<noteq> [])"

section \<open>The notification store\<close>

text \<open>
  Modelled from the spec: the Prisma client and the table's schema are not among the
  sources. A row gets its \<open>id\<close> and \<open>createdAt\<close> from the store at creation and
  \<open>isRead\<close> defaults to false (spec, section 3); \<open>id\<close> is the primary key, so a row
  whose identifier is already in the table is rejected. Each call is one external call:
  it consumes one number of the environment and may be rejected by it.
\<close>

definition prisma_create ::
  "env \<Rightarrow> world \<Rightarrow> string \<Rightarrow> notification_type \<Rightarrow> string \<Rightarrow> string option \<Rightarrow> string option
     \<Rightarrow> metadata_t option \<Rightarrow> (thrown + notification) \<times> world" where
  "prisma_create e w uid ty ttl msg lnk md =
     (case fault e (calls w) of
        Some t \<Rightarrow> (Inl t, tick w)
      | None \<Rightarrow>
          (let n = \<lparr>nid = gen_id e (calls w), userId = uid, ntype = ty, title = ttl,
                     message = msg, link = lnk, metadata = md, isRead = False,
                     createdAt = now e (calls w)\<rparr>
           in if nid n \<in> set (map nid (rows w))
              then (Inl (Error ''Unique constraint failed on the fields: (id)''), tick w)
              else (Inr n, tick (w\<lparr>rows := rows w @ [n]\<rparr>))))"

text \<open>
  \<open>findMany\<close> with \<open>where: { userId }\<close>, \<open>orderBy: { createdAt: 'desc' }\<close>,
  \<open>take\<close> and \<open>skip\<close>. The route admits only integers \<open>1 \<le> limit \<le> 100\<close> and
  \<open>0 \<le> offset\<close>, so both are naturals here.
\<close>

definition prisma_findMany ::
  "env \<Rightarrow> world \<Rightarrow> string \<Rightarrow> nat \<Rightarrow> nat \<Rightarrow> (thrown + notification list) \<times> world" where
  "prisma_findMany e w uid lmt ofs =
     (case fault e (calls w) of
        Some t \<Rightarrow> (Inl t, tick w)
      | None \<Rightarrow>
          (Inr (take lmt (drop ofs
                 (rev (sort_key createdAt (filter (\<lambda>n. userId n = uid) (rows w)))))),
           tick w))"

definition prisma_count ::
  "env \<Rightarrow> world \<Rightarrow> (notification \<Rightarrow> bool) \<Rightarrow> (thrown + nat) \<times> world" where
  "prisma_count e w P =
     (case fault e (calls w) of
        Some t \<Rightarrow> (Inl t, tick w)
      | None \<Rightarrow> (Inr (length (filter P (rows w))), tick w))"

definition prisma_findUnique ::
  "env \<Rightarrow> world \<Rightarrow> string \<Rightarrow> (thrown + notification option) \<times> world" where
  "prisma_findUnique e w i =
     (case fault e (calls w) of
        Some t \<Rightarrow> (Inl t, tick w)
      | None \<Rightarrow> (Inr (find (\<lambda>n. nid n = i) (rows w)), tick w))"

text \<open>\<open>update\<close> with \<open>where: { id }\<close> and \<open>data: { isRead: true }\<close>.\<close>

definition prisma_update_isRead ::
  "env \<Rightarrow> world \<Rightarrow> string \<Rightarrow> (thrown + notification) \<times> world" where
  "prisma_update_isRead e w i =
     (case fault e (calls w) of
        Some t \<Rightarrow> (Inl t, tick w)
      | None \<Rightarrow>
          (case find (\<lambda>n. nid n = i) (rows w) of
             None \<Rightarrow> (Inl (Error ''Record to update not found.''), tick w)
           | Some n \<Rightarrow>
               (Inr (n\<lparr>isRead := True\<rparr>),
                tick (w\<lparr>rows := map (\<lambda>r. if nid r = i then r\<lparr>isRead := True\<rparr> else r)
                                     (rows w)\<rparr>))))"

text \<open>\<open>updateMany\<close> with \<open>where: { userId, isRead: false }\<close> and \<open>data: { isRead: true }\<close>.\<close>

definition prisma_updateMany_isRead ::
  "env \<Rightarrow> world \<Rightarrow> string \<Rightarrow> (thrown + nat) \<times> world" where
  "prisma_updateMany_isRead e w uid =
     (case fault e (calls w) of
        Some t \<Rightarrow> (Inl t, tick w)
      | None \<Rightarrow>
          (Inr (length (filter (\<lambda>n. userId n = uid \<and> \<not> isRead n) (rows w))),
           tick (w\<lparr>rows := map (\<lambda>r. if userId r = uid \<and> \<not> isRead r
                                       then r\<lparr>isRead := True\<rparr> else r) (rows w)\<rparr>)))"

definition prisma_delete ::
  "env \<Rightarrow> world \<Rightarrow> string \<Rightarrow> (thrown + unit) \<times> world" where
  "prisma_delete e w i =
     (case fault e (calls w) of
        Some t \<Rightarrow> (Inl t, tick w)
      | None \<Rightarrow>
          (case find (\<lambda>n. nid n = i) (rows w) of
             None \<Rightarrow> (Inl (Error ''Record to delete does not exist.''), tick w)
           | Some n \<Rightarrow> (Inr (), tick (w\<lparr>rows := filter (\<lambda>r. nid r \<noteq> i) (rows w)\<rparr>))))"

section \<open>The notification service\<close>

definition createNotification ::
  "env \<Rightarrow> world \<Rightarrow> string \<Rightarrow> notification_type \<Rightarrow> string \<Rightarrow> string option \<Rightarrow> string option
     \<Rightarrow> metadata_t option \<Rightarrow> (thrown + notification) \<times> world" where
  "createNotification e w uid ty ttl msg lnk md =
     (case prisma_create e w uid ty ttl msg lnk md of
        (Inl t, w1) \<Rightarrow> (Inl t, w1)
      | (Inr n, w1) \<Rightarrow> (Inr n, log Info ''Notification created'' w1))"

definition createSystemNotification ::
  "env \<Rightarrow> world \<Rightarrow> string \<Rightarrow> string \<Rightarrow> string \<Rightarrow> (thrown + notification) \<times> world" where
  "createSystemNotification e w uid ttl msg =
     createNotification e w uid SYSTEM_ALERT ttl (Some msg) None None"

record page =
  notifications :: "notification list"
  total :: nat
  limit :: nat
  offset :: nat

text \<open>
  The two queries of \<open>Promise.all\<close> are both issued, \<open>findMany\<close> first; the call
  rejects when either does.
\<close>

definition getNotifications ::
  "env \<Rightarrow> world \<Rightarrow> string \<Rightarrow> nat \<Rightarrow> nat \<Rightarrow> (thrown + page) \<times> world" where
  "getNotifications e w uid lmt ofs =
     (case prisma_findMany e w uid lmt ofs of
        (r1, w1) \<Rightarrow>
          (case prisma_count e w1 (\<lambda>n. userId n = uid) of
             (r2, w2) \<Rightarrow>
               (case r1 of
                  Inl t \<Rightarrow> (Inl t, w2)
                | Inr ns \<Rightarrow>
                    (case r2 of
                       Inl t \<Rightarrow> (Inl t, w2)
                     | Inr c \<Rightarrow>
                         (Inr \<lparr>notifications = ns, total = c, limit = lmt, offset = ofs\<rparr>,
                          w2)))))"

definition getUnreadCount :: "env \<Rightarrow> world \<Rightarrow> string \<Rightarrow> (thrown + nat) \<times> world" where
  "getUnreadCount e w uid = prisma_count e w (\<lambda>n. userId n = uid \<and> \<not> isRead n)"

definition markAsRead ::
  "env \<Rightarrow> world \<Rightarrow> string \<Rightarrow> string \<Rightarrow> (service_error + notification) \<times> world" where
  "markAsRead e w uid i =
     (case prisma_findUnique e w i of
        (Inl t, w1) \<Rightarrow> (Inl (Rejected t), w1)
      | (Inr None, w1) \<Rightarrow> (Inl (NotFound ''Notification not found''), w1)
      | (Inr (Some n), w1) \<Rightarrow>
          if userId n \<noteq> uid
          then (Inl (Forbidden ''Cannot mark another user's notification as read''), w1)
          else (case prisma_update_isRead e w1 i of
                  (Inl t, w2) \<Rightarrow> (Inl (Rejected t), w2)
                | (Inr updated, w2) \<Rightarrow> (Inr updated, w2)))"

definition markAllAsRead :: "env \<Rightarrow> world \<Rightarrow> string \<Rightarrow> (thrown + nat) \<times> world" where
  "markAllAsRead e w uid =
     (case prisma_updateMany_isRead e w uid of
        (Inl t, w1) \<Rightarrow> (Inl t, w1)
      | (Inr c, w1) \<Rightarrow> (Inr c, log Info ''Marked all notifications as read'' w1))"

definition deleteNotification ::
  "env \<Rightarrow> world \<Rightarrow> string \<Rightarrow> string \<Rightarrow> (service_error + unit) \<times> world" where
  "deleteNotification e w uid i =
     (case prisma_findUnique e w i of
        (Inl t, w1) \<Rightarrow> (Inl (Rejected t), w1)
      | (Inr None, w1) \<Rightarrow> (Inl (NotFound ''Notification not found''), w1)
      | (Inr (Some n), w1) \<Rightarrow>
          if userId n \<noteq> uid
          then (Inl (Forbidden ''Cannot delete another user's notification''), w1)
          else (case prisma_delete e w1 i of
                  (Inl t, w2) \<Rightarrow> (Inl (Rejected t), w2)
                | (Inr u, w2) \<Rightarrow> (Inr (), log Info ''Notification deleted'' w2)))"

section \<open>Multi-channel delivery\<close>

record delivery_payload =
  p_userId :: string
  p_type :: notification_type
  p_title :: string
  p_message :: "string option"
  p_link :: "string option"
  p_metadata :: "metadata_t option"

text \<open>An entry of \<open>results\<close>: \<open>{ channel, success, error? }\<close>.\<close>

record outcome =
  channel :: string
  success :: bool
  error :: "string option"

text \<open>\<open>error instanceof Error ? error.message : 'Unknown error'\<close>\<close>

fun error_message :: "thrown \<Rightarrow> string" where
  "error_message (Error m) = m"
| "error_message NonError = ''Unknown error''"

fun getColorForType :: "notification_type \<Rightarrow> nat" where
  "getColorForType CLIP_APPROVED = 0x22c55e"
| "getColorForType CAMPAIGN_ACCEPTED = 0x22c55e"
| "getColorForType PAYMENT_COMPLETED = 0x22c55e"
| "getColorForType PAYMENT_CREDITED = 0x22c55e"
| "getColorForType CLIP_REJECTED = 0xef4444"
| "getColorForType CAMPAIGN_REJECTED = 0xef4444"
| "getColorForType PAYMENT_ERROR = 0xef4444"
| "getColorForType CAMPAIGN_ENDING = 0xf59e0b"
| "getColorForType CAMPAIGN_ENDED = 0xf59e0b"
| "getColorForType PAYMENT_PROCESSING = 0xf59e0b"
| "getColorForType NEW_CAMPAIGN = 0x3b82f6"
| "getColorForType STUDIO_INVITE = 0x3b82f6"
| "getColorForType CLIP_MILESTONE = 0x3b82f6"
| "getColorForType _ = 0x6b7280"

definition deliverInApp ::
  "env \<Rightarrow> world \<Rightarrow> delivery_payload \<Rightarrow> (thrown + unit) \<times> world" where
  "deliverInApp e w p =
     (case createNotification e w (p_userId p) (p_type p) (p_title p) (p_message p)
             (p_link p) (p_metadata p) of
        (Inl t, w1) \<Rightarrow> (Inl t, w1)
      | (Inr n, w1) \<Rightarrow> (Inr (), log Debug ''In-app notification delivered'' w1))"

text \<open>
  The request of \<open>axios.post\<close>: \<open>payload.message || ''\<close> for the description, the
  link field only for a truthy \<open>payload.link\<close>.
\<close>

definition dm_request_of :: "string \<Rightarrow> delivery_payload \<Rightarrow> dm_request" where
  "dm_request_of url p =
     \<lparr>r_url = url @ ''/messages/dm'',
      r_userId = p_userId p,
      r_title = p_title p,
      r_description = (case p_message p of None \<Rightarrow> [] | Some m \<Rightarrow> m),
      r_color = getColorForType (p_type p),
      r_fields = (case p_link p of
                    None \<Rightarrow> None
                  | Some l \<Rightarrow> if l = [] then None
                              else Some [\<lparr>f_name = ''Link'', f_value = l, f_inline = False\<rparr>]),
      r_timeout = 5000,
      r_contentType = ''application/json''\<rparr>"

text \<open>
  The post is one external call: it is recorded in \<open>outbox\<close> whether it succeeds or
  not. A rejection (timeout, HTTP status, connection) is what \<open>fault\<close> says of this call.
\<close>

definition deliverDiscord ::
  "env \<Rightarrow> world \<Rightarrow> delivery_payload \<Rightarrow> (thrown + unit) \<times> world" where
  "deliverDiscord e w p =
     (if \<not> truthy (discordServiceUrl e)
      then (Inr (), log Warn ''Discord service URL not configured, skipping discord delivery'' w)
      else
        (let url = (case discordServiceUrl e of None \<Rightarrow> [] | Some u \<Rightarrow> u);
             w1 = tick (w\<lparr>outbox := outbox w @ [dm_request_of url p]\<rparr>)
         in case fault e (calls w) of
              None \<Rightarrow> (Inr (), log Debug ''Discord notification delivered'' w1)
            | Some t \<Rightarrow>
                (Inl (Error (''Discord delivery failed: '' @ error_message t)),
                 log Err ''Failed to deliver discord notification'' w1)))"

text \<open>The \<open>catch\<close> block of the loop of \<open>deliver\<close>.\<close>

definition deliver_catch :: "string \<Rightarrow> thrown \<Rightarrow> world \<Rightarrow> outcome \<times> world" where
  "deliver_catch ch t w =
     (\<lparr>channel = ch, success = False, error = Some (error_message t)\<rparr>,
      log Err ''Delivery failed'' w)"

text \<open>One turn of the loop of \<open>deliver\<close>: the \<open>try\<close> with its \<open>switch\<close>.\<close>

definition deliver_channel ::
  "env \<Rightarrow> world \<Rightarrow> delivery_payload \<Rightarrow> string \<Rightarrow> outcome \<times> world" where
  "deliver_channel e w p ch =
     (if ch = ''in_app'' then
        (case deliverInApp e w p of
           (Inr u, w1) \<Rightarrow> (\<lparr>channel = ch, success = True, error = None\<rparr>, w1)
         | (Inl t, w1) \<Rightarrow> deliver_catch ch t w1)
      else if ch = ''discord'' then
        (case deliverDiscord e w p of
           (Inr u, w1) \<Rightarrow> (\<lparr>channel = ch, success = True, error = None\<rparr>, w1)
         | (Inl t, w1) \<Rightarrow> deliver_catch ch t w1)
      else
        (\<lparr>channel = ch, success = False, error = Some ''Unknown channel''\<rparr>,
         log Warn ''Unknown delivery channel'' w))"

fun deliver_loop ::
  "env \<Rightarrow> world \<Rightarrow> delivery_payload \<Rightarrow> string list \<Rightarrow> outcome list \<Rightarrow> outcome list \<times> world"
  where
  "deliver_loop e w p [] results = (results, w)"
| "deliver_loop e w p (ch # chs) results =
     (case deliver_channel e w p ch of
        (r, w1) \<Rightarrow> deliver_loop e w1 p chs (results @ [r]))"

text \<open>
  \<open>deliver\<close> as its caller sees it: \<open>Inl\<close> would be an exception leaving the function,
  \<open>Inr\<close> is the returned list.
\<close>

definition deliver ::
  "env \<Rightarrow> world \<Rightarrow> delivery_payload \<Rightarrow> string list \<Rightarrow> (thrown + outcome list) \<times> world" where
  "deliver e w p chs = (case deliver_loop e w p chs [] of (rs, w1) \<Rightarrow> (Inr rs, w1))"

section \<open>Numbers in messages\<close>

text \<open>The decimal digits of a natural number.\<close>

fun dec :: "nat \<Rightarrow> string" where
  "dec n = (if n < 10 then [''0123456789'' ! n]
            else dec (n div 10) @ [''0123456789'' ! (n mod 10)])"

declare dec.simps [simp del]

text \<open>
  The numbers of the code are binary64 values. The amounts and the counts of the
  payloads are integers (minor units, clips, views): safe integers, the integers below
  \<open>2^53\<close> in magnitude, each of which is a binary64 value of its own
  (\<open>Number.isSafeInteger\<close>).
\<close>

typedef safe_integer = "{i :: int. \<bar>i\<bar> < 2 ^ 53}"
  morphisms int_of Safe
  by (rule exI[of _ 0]) simp

text \<open>
  A safe integer in a template literal (\<open>${payload.totalClips}\<close>): the number to
  string conversion prints an integer below \<open>2^53\<close> with all its decimal digits.
\<close>

definition show_int :: "safe_integer \<Rightarrow> string" where
  "show_int i =
     (if int_of i < 0 then ''-'' @ dec (nat (- int_of i)) else dec (nat (int_of i)))"

text \<open>
  Rounding a quotient of integers to a significand of 53 bits. \<open>rne a b\<close> is the
  integer nearest to \<open>a / b\<close>, ties to even, for positive \<open>b\<close>; \<open>exponent2 a b\<close> is
  the binary exponent of \<open>a / b\<close>, the largest \<open>e\<close> with \<open>2^e \<le> a / b\<close>, for positive
  \<open>a\<close> and \<open>b\<close>; \<open>round53_div a b\<close> is the fraction \<open>(num, den)\<close> nearest to
  \<open>a / b\<close> among those with a significand of 53 bits (ties to the even significand),
  for positive \<open>b\<close>; its denominator is a power of two.
\<close>

definition rne :: "int \<Rightarrow> int \<Rightarrow> int" where
  "rne a b =
     (let q = a div b; r = a mod b
      in if 2 * r < b \<or> (2 * r = b \<and> even q) then q else q + 1)"

definition exponent2 :: "int \<Rightarrow> int \<Rightarrow> int" where
  "exponent2 a b =
     (let d = bitlen a - bitlen b
      in if (if 0 \<le> d then b * 2 ^ nat d \<le> a else b \<le> a * 2 ^ nat (- d))
         then d else d - 1)"

definition round53_div :: "int \<Rightarrow> int \<Rightarrow> int \<times> int" where
  "round53_div a b =
     (if a = 0 then (0, 1)
      else
        (let s = 52 - exponent2 \<bar>a\<bar> b
         in if 0 \<le> s
            then (sgn a * rne (\<bar>a\<bar> * 2 ^ nat s) b, 2 ^ nat s)
            else (sgn a * rne \<bar>a\<bar> (b * 2 ^ nat (- s)) * 2 ^ nat (- s), 1)))"

text \<open>
  \<open>amount / 100\<close> for a safe integer: both operands are binary64 values and the
  quotient, zero or between \<open>2^-7\<close> and \<open>2^47\<close> in magnitude, is in the normal range,
  so the binary64 quotient is the exact quotient rounded to 53 bits.
\<close>

definition js_div_100 :: "safe_integer \<Rightarrow> int \<times> int" where
  "js_div_100 a = round53_div (int_of a) 100"

text \<open>
  The fixed-point notation with two decimals of a fraction \<open>num / den\<close> (\<open>den\<close>
  positive): the integer \<open>n\<close> for which \<open>n / 100\<close> is closest to the magnitude, the
  larger one of two, printed with at least three digits and a point before the last
  two; a minus sign for a negative fraction.
\<close>

definition fixed_point2 :: "int \<times> int \<Rightarrow> string" where
  "fixed_point2 x =
     (case x of (num, den) \<Rightarrow>
        (let n = nat ((200 * \<bar>num\<bar> + den) div (2 * den));
             m = dec n;
             m' = (if length m \<le> 2 then replicate (3 - length m) (CHR ''0'') @ m else m);
             k = length m'
         in (if num < 0 then ''-'' else []) @ take (k - 2) m' @ ''.'' @ drop (k - 2) m'))"

text \<open>
  \<open>(amount / 100).toFixed(2)\<close> for a safe integer. The quotient is below \<open>10^21\<close>
  in magnitude, where \<open>toFixed\<close> prints the fixed-point notation and no exponent.
\<close>

definition div100_toFixed2 :: "safe_integer \<Rightarrow> string" where
  "div100_toFixed2 a = fixed_point2 (js_div_100 a)"

section \<open>Event handlers\<close>

text \<open>
  The payloads of the events, with the fields the handlers read. The amounts and
  counts are safe integers. \<open>changedBy\<close> is optional.
\<close>

record clip_approved_payload =
  ca_userId :: string
  ca_clipId :: string
  ca_campaignId :: string
  ca_paymentAmount :: safe_integer

record clip_rejected_payload =
  cr_userId :: string
  cr_clipId :: string
  cr_campaignId :: string
  cr_reason :: string

record campaign_status_changed_payload =
  cs_campaignId :: string
  cs_oldStatus :: string
  cs_newStatus :: string
  cs_changedBy :: "string option"

record campaign_ended_payload =
  ce_endReason :: string
  ce_totalClips :: safe_integer
  ce_totalViews :: safe_integer

record payout_completed_payload =
  pc_userId :: string
  pc_payoutId :: string
  pc_amount :: safe_integer
  pc_transactionHash :: string

record dispute_created_payload =
  dc_userId :: string
  dc_disputeId :: string
  dc_clipId :: string
  dc_campaignId :: string

record dispute_resolved_payload =
  dr_userId :: string
  dr_disputeId :: string
  dr_clipId :: string
  dr_status :: string
  dr_resolution :: string

datatype event =
    EV_CLIP_APPROVED clip_approved_payload
  | EV_CLIP_REJECTED clip_rejected_payload
  | EV_CAMPAIGN_STATUS_CHANGED campaign_status_changed_payload
  | EV_CAMPAIGN_ENDED campaign_ended_payload
  | EV_PAYOUT_COMPLETED payout_completed_payload
  | EV_DISPUTE_CREATED dispute_created_payload
  | EV_DISPUTE_RESOLVED dispute_resolved_payload

text \<open>\<open>context.ack()\<close>: the consumer runtime counts one acknowledgement.\<close>

definition ack :: "world \<Rightarrow> world" where
  "ack w = w\<lparr>acks := Suc (acks w)\<rparr>"

text \<open>
  The end of every handler: \<open>await createNotification(...)\<close>, then
  \<open>await context.ack()\<close>. A rejected creation leaves the handler as an exception, to
  the wrappers \<open>withLogging\<close> and \<open>withRetry\<close> of the events package, before
  the acknowledgement is reached.
\<close>

definition then_ack :: "(thrown + notification) \<times> world \<Rightarrow> (thrown + unit) \<times> world" where
  "then_ack r = (case r of (Inl t, w1) \<Rightarrow> (Inl t, w1) | (Inr n, w1) \<Rightarrow> (Inr (), ack w1))"

definition clip_approved_message :: "safe_integer \<Rightarrow> string" where
  "clip_approved_message amount =
     ''Your clip has been approved! You earned $'' @ div100_toFixed2 amount @ ''.''"

definition on_CLIP_APPROVED ::
  "env \<Rightarrow> world \<Rightarrow> clip_approved_payload \<Rightarrow> (thrown + unit) \<times> world" where
  "on_CLIP_APPROVED e w p =
     then_ack (createNotification e w (ca_userId p) CLIP_APPROVED ''Clip Approved''
       (Some (clip_approved_message (ca_paymentAmount p)))
       None
       (Some [(''clipId'', JString (ca_clipId p)),
              (''campaignId'', JString (ca_campaignId p)),
              (''paymentAmount'', JNumber (int_of (ca_paymentAmount p)))]))"

definition on_CLIP_REJECTED ::
  "env \<Rightarrow> world \<Rightarrow> clip_rejected_payload \<Rightarrow> (thrown + unit) \<times> world" where
  "on_CLIP_REJECTED e w p =
     then_ack (createNotification e w (cr_userId p) CLIP_REJECTED ''Clip Rejected''
       (Some (''Your clip was rejected. Reason: '' @ cr_reason p))
       None
       (Some [(''clipId'', JString (cr_clipId p)),
              (''campaignId'', JString (cr_campaignId p)),
              (''reason'', JString (cr_reason p))]))"

definition on_CAMPAIGN_STATUS_CHANGED ::
  "env \<Rightarrow> world \<Rightarrow> campaign_status_changed_payload \<Rightarrow> (thrown + unit) \<times> world" where
  "on_CAMPAIGN_STATUS_CHANGED e w p =
     (if cs_newStatus p = ''PAUSED'' then
        (case cs_changedBy p of
           None \<Rightarrow> (Inr (), ack w)
         | Some u \<Rightarrow>
             if u = [] then (Inr (), ack w)
             else
               then_ack (createNotification e w u CAMPAIGN_ENDING ''Campaign Paused''
                 (Some ''Campaign has been paused.'')
                 None
                 (Some [(''campaignId'', JString (cs_campaignId p)),
                        (''oldStatus'', JString (cs_oldStatus p)),
                        (''newStatus'', JString (cs_newStatus p))])))
      else (Inr (), ack w))"

definition on_CAMPAIGN_ENDED ::
  "env \<Rightarrow> world \<Rightarrow> campaign_ended_payload \<Rightarrow> (thrown + unit) \<times> world" where
  "on_CAMPAIGN_ENDED e w p =
     then_ack (createSystemNotification e w ''system'' ''Campaign Ended''
       (''Campaign ended ('' @ ce_endReason p @ ''). Total clips: ''
          @ show_int (ce_totalClips p) @ '', Total views: ''
          @ show_int (ce_totalViews p) @ ''.''))"

definition on_PAYOUT_COMPLETED ::
  "env \<Rightarrow> world \<Rightarrow> payout_completed_payload \<Rightarrow> (thrown + unit) \<times> world" where
  "on_PAYOUT_COMPLETED e w p =
     then_ack (createNotification e w (pc_userId p) PAYMENT_COMPLETED ''Payment Completed''
       (Some (''Your payout of $'' @ div100_toFixed2 (pc_amount p)
                @ '' has been completed.''))
       None
       (Some [(''payoutId'', JString (pc_payoutId p)),
              (''amount'', JNumber (int_of (pc_amount p))),
              (''transactionHash'', JString (pc_transactionHash p))]))"

definition on_DISPUTE_CREATED ::
  "env \<Rightarrow> world \<Rightarrow> dispute_created_payload \<Rightarrow> (thrown + unit) \<times> world" where
  "on_DISPUTE_CREATED e w p =
     then_ack (createNotification e w (dc_userId p) SYSTEM_ALERT ''Dispute Created''
       (Some ''Your dispute has been submitted and is under review.'')
       None
       (Some [(''disputeId'', JString (dc_disputeId p)),
              (''clipId'', JString (dc_clipId p)),
              (''campaignId'', JString (dc_campaignId p))]))"

definition on_DISPUTE_RESOLVED ::
  "env \<Rightarrow> world \<Rightarrow> dispute_resolved_payload \<Rightarrow> (thrown + unit) \<times> world" where
  "on_DISPUTE_RESOLVED e w p =
     (let statusLabel = (if dr_status p = ''RESOLVED'' then ''resolved in your favor''
                         else ''rejected'')
      in then_ack (createNotification e w (dr_userId p) SYSTEM_ALERT ''Dispute Resolved''
           (Some (''Your dispute has been '' @ statusLabel @ ''. Resolution: ''
                    @ dr_resolution p))
           None
           (Some [(''disputeId'', JString (dr_disputeId p)),
                  (''clipId'', JString (dr_clipId p)),
                  (''status'', JString (dr_status p)),
                  (''resolution'', JString (dr_resolution p))])))"

text \<open>The handler the consumer runs for an event, by the event's type.\<close>

fun handle :: "env \<Rightarrow> world \<Rightarrow> event \<Rightarrow> (thrown + unit) \<times> world" where
  "handle e w (EV_CLIP_APPROVED p) = on_CLIP_APPROVED e w p"
| "handle e w (EV_CLIP_REJECTED p) = on_CLIP_REJECTED e w p"
| "handle e w (EV_CAMPAIGN_STATUS_CHANGED p) = on_CAMPAIGN_STATUS_CHANGED e w p"
| "handle e w (EV_CAMPAIGN_ENDED p) = on_CAMPAIGN_ENDED e w p"
| "handle e w (EV_PAYOUT_COMPLETED p) = on_PAYOUT_COMPLETED e w p"
| "handle e w (EV_DISPUTE_CREATED p) = on_DISPUTE_CREATED e w p"
| "handle e w (EV_DISPUTE_RESOLVED p) = on_DISPUTE_RESOLVED e w p"

section \<open>Vocabulary of the properties\<close>

text \<open>The store takes the row that call number \<open>calls w\<close> creates: the call is not rejected
  and the identifier is new.\<close>

definition store_accepts :: "env \<Rightarrow> world \<Rightarrow> bool" where
  "store_accepts e w = (fault e (calls w) = None \<and> gen_id e (calls w) \<notin> set (map nid (rows w)))"

text \<open>The operations of the service, and who invokes them. A creation comes from the
  event pipeline, not from a user.\<close>

datatype operation =
    OpCreate string notification_type string "string option" "string option" "metadata_t option"
  | OpList string nat nat
  | OpUnreadCount string
  | OpMarkRead string string
  | OpMarkAll string
  | OpDelete string string

fun run_op :: "env \<Rightarrow> world \<Rightarrow> operation \<Rightarrow> world" where
  "run_op e w (OpCreate uid ty ttl msg lnk md) = snd (createNotification e w uid ty ttl msg lnk md)"
| "run_op e w (OpList uid lmt ofs) = snd (getNotifications e w uid lmt ofs)"
| "run_op e w (OpUnreadCount uid) = snd (getUnreadCount e w uid)"
| "run_op e w (OpMarkRead uid i) = snd (markAsRead e w uid i)"
| "run_op e w (OpMarkAll uid) = snd (markAllAsRead e w uid)"
| "run_op e w (OpDelete uid i) = snd (deleteNotification e w uid i)"

fun caller :: "operation \<Rightarrow> string option" where
  "caller (OpCreate uid ty ttl msg lnk md) = None"
| "caller (OpList uid lmt ofs) = Some uid"
| "caller (OpUnreadCount uid) = Some uid"
| "caller (OpMarkRead uid i) = Some uid"
| "caller (OpMarkAll uid) = Some uid"
| "caller (OpDelete uid i) = Some uid"

text \<open>
  What an operation invoked by \<open>c\<close> keeps of a stored row \<open>r\<close>: a row with the
  identifier of \<open>r\<close> differs from \<open>r\<close> in \<open>isRead\<close> at most, \<open>r\<close> itself is
  changed or gone only when \<open>c\<close> is its owner, and identifiers stay distinct.
\<close>

definition keeps :: "notification \<Rightarrow> string option \<Rightarrow> notification list \<Rightarrow> notification list \<Rightarrow> bool" where
  "keeps r c xs xs' =
     ((\<forall>r' \<in> set xs'. nid r' = nid r \<longrightarrow> r'\<lparr>isRead := isRead r\<rparr> = r)
      \<and> (r \<notin> set xs' \<longrightarrow> c = Some (userId r))
      \<and> distinct (map nid xs'))"

text \<open>Example environments and tables.\<close>

definition env_up :: env where
  "env_up = \<lparr>discordServiceUrl = None, fault = (\<lambda>k. None), gen_id = (\<lambda>k. ''n'' @ dec k),
             now = (\<lambda>k. k)\<rparr>"

definition example_row :: "string \<Rightarrow> string \<Rightarrow> bool \<Rightarrow> nat \<Rightarrow> notification" where
  "example_row i u b t =
     \<lparr>nid = i, userId = u, ntype = SYSTEM_ALERT, title = ''Notice'', message = None,
      link = None, metadata = None, isRead = b, createdAt = t\<rparr>"

definition example_world :: "notification list \<Rightarrow> world" where
  "example_world xs = \<lparr>rows = xs, calls = 0, outbox = [], logs = [], acks = 0\<rparr>"

definition two_users :: world where
  "two_users = example_world [example_row ''a'' ''alice'' False 1,
                             example_row ''b'' ''bob'' False 2,
                             example_row ''c'' ''alice'' False 3]"

text \<open>An environment whose call number \<open>j\<close> is refused (the discord service is
  configured), one where every call fails, one where every call fails with an error
  whose message is empty, and a payload.\<close>

definition env_post_fails :: "nat \<Rightarrow> env" where
  "env_post_fails j =
     \<lparr>discordServiceUrl = Some ''http://discord:3000'',
      fault = (\<lambda>k. if k = j then Some (Error ''connect ECONNREFUSED'') else None),
      gen_id = (\<lambda>k. ''n'' @ dec k), now = (\<lambda>k. k)\<rparr>"

definition env_all_down :: env where
  "env_all_down =
     \<lparr>discordServiceUrl = Some ''http://discord:3000'',
      fault = (\<lambda>k. Some (Error ''connection lost'')),
      gen_id = (\<lambda>k. ''n'' @ dec k), now = (\<lambda>k. k)\<rparr>"

definition env_empty_message :: env where
  "env_empty_message =
     \<lparr>discordServiceUrl = None, fault = (\<lambda>k. Some (Error [])),
      gen_id = (\<lambda>k. ''n'' @ dec k), now = (\<lambda>k. k)\<rparr>"

definition payload0 :: delivery_payload where
  "payload0 = \<lparr>p_userId = ''alice'', p_type = CLIP_APPROVED, p_title = ''Clip Approved'',
               p_message = Some ''Well done'', p_link = None, p_metadata = None\<rparr>"

text \<open>
  Whether the handler of an event creates a notification: always, but for a status
  change, where the new status must be \<open>PAUSED\<close> and \<open>changedBy\<close> truthy (the tests
  of the handler).
\<close>

fun creation_due :: "event \<Rightarrow> bool" where
  "creation_due (EV_CAMPAIGN_STATUS_CHANGED p)
     = (cs_newStatus p = ''PAUSED'' \<and> truthy (cs_changedBy p))"
| "creation_due _ = True"

text \<open>Example payloads.\<close>

definition clip0 :: clip_approved_payload where
  "clip0 = \<lparr>ca_userId = ''alice'', ca_clipId = ''clip1'', ca_campaignId = ''camp1'',
            ca_paymentAmount = Safe 2550\<rparr>"

definition clip_beyond :: clip_approved_payload where
  "clip_beyond = \<lparr>ca_userId = ''alice'', ca_clipId = ''clip1'', ca_campaignId = ''camp1'',
                  ca_paymentAmount = Safe 7036874417766401\<rparr>"


definition status0 :: "string \<Rightarrow> string option \<Rightarrow> campaign_status_changed_payload" where
  "status0 s who = \<lparr>cs_campaignId = ''camp1'', cs_oldStatus = ''ACTIVE'', cs_newStatus = s,
                  cs_changedBy = who\<rparr>"

text \<open>
  The amount as the spec words it: the integer of minor units divided by 100, written
  with exactly two decimal digits (the whole units, a point, the tens and the units of
  the hundredths), after a minus sign when it is negative.
\<close>

definition spec_amount :: "int \<Rightarrow> string" where
  "spec_amount a =
     (if a < 0 then ''-'' else []) @ dec (nat (\<bar>a\<bar> div 100)) @ ''.''
       @ dec (nat (\<bar>a\<bar> mod 100 div 10)) @ dec (nat (\<bar>a\<bar> mod 10))"

section \<open>Properties of the notification service\<close>

lemma find_nid_None: "find (\<lambda>n. nid n = i) xs = None \<longleftrightarrow> i \<notin> set (map nid xs)"
  by (induction xs) auto

lemma find_nid_distinct:
  "distinct (map nid xs) \<Longrightarrow> n \<in> set xs \<Longrightarrow> find (\<lambda>r. nid r = nid n) xs = Some n"
  by (induction xs) (auto simp: rev_image_eqI)

lemma same_nid_same_row:
  "distinct (map nid xs) \<Longrightarrow> r \<in> set xs \<Longrightarrow> r' \<in> set xs \<Longrightarrow> nid r' = nid r \<Longrightarrow> r' = r"
  by (meson distinct_map inj_onD)

lemma find_nid_Some: "find (\<lambda>r. nid r = i) xs = Some n \<Longrightarrow> n \<in> set xs \<and> nid n = i"
  by (induction xs) (auto split: if_splits)

lemma isRead_restore: "r\<lparr>isRead := True, isRead := isRead r\<rparr> = r"
  by (cases r) auto

lemmas ex_defs = env_up_def example_row_def example_world_def two_users_def

lemma env_up_fault: "fault env_up k = None"
  by (simp add: env_up_def)

lemma two_users_distinct: "distinct (map nid (rows two_users))"
  by (simp add: two_users_def example_world_def example_row_def)

lemma two_users_rows:
  "rows two_users = [example_row ''a'' ''alice'' False 1, example_row ''b'' ''bob'' False 2,
                     example_row ''c'' ''alice'' False 3]"
  by (simp add: two_users_def example_world_def)

text \<open>
  Claim C10. When the store answers the two queries of the listing, the \<open>total\<close> it
  returns is the number of all notifications of the user in the table, whatever
  \<open>limit\<close> and \<open>offset\<close> are; the page itself has
  \<open>min limit (total - offset)\<close> items.
\<close>

theorem getNotifications_total:
  assumes "fault e (calls w) = None" and "fault e (Suc (calls w)) = None"
  shows "\<exists>pg. fst (getNotifications e w uid lmt ofs) = Inr pg
           \<and> total pg = length (filter (\<lambda>n. userId n = uid) (rows w))
           \<and> length (notifications pg) = min lmt (total pg - ofs)
           \<and> limit pg = lmt \<and> offset pg = ofs"
  using assms
  by (simp add: getNotifications_def prisma_findMany_def prisma_count_def tick_def)

theorem getNotifications_total_witness:
  "\<exists>pg. fst (getNotifications env_up two_users ''alice'' 1 0) = Inr pg
        \<and> total pg = 2 \<and> length (notifications pg) = 1"
proof -
  from getNotifications_total[OF env_up_fault env_up_fault, of two_users "''alice''" 1 0]
  obtain pg where pg: "fst (getNotifications env_up two_users ''alice'' 1 0) = Inr pg"
    "total pg = length (filter (\<lambda>n. userId n = ''alice'') (rows two_users))"
    "length (notifications pg) = min 1 (total pg - 0)"
    by blast
  have "length (filter (\<lambda>n. userId n = ''alice'') (rows two_users)) = 2"
    by (simp add: two_users_rows example_row_def)
  with pg show ?thesis by (intro exI[of _ pg]) simp
qed

text \<open>
  Claim C7. With a store that answers and a table whose identifiers are distinct (the
  primary key), \<open>markAsRead\<close> fails with NotFound when no notification has the
  identifier, fails with Forbidden when the notification belongs to another user, leaves
  every stored row as it was in both cases, and otherwise sets \<open>isRead\<close> of that
  notification and returns the updated row.
\<close>

theorem markAsRead_cases:
  assumes "fault e (calls w) = None" and "fault e (Suc (calls w)) = None"
    and "distinct (map nid (rows w))"
  shows "(i \<notin> set (map nid (rows w)) \<longrightarrow>
            fst (markAsRead e w uid i) = Inl (NotFound ''Notification not found'')
            \<and> rows (snd (markAsRead e w uid i)) = rows w)
       \<and> (\<forall>n \<in> set (rows w). nid n = i \<and> userId n \<noteq> uid \<longrightarrow>
            fst (markAsRead e w uid i)
              = Inl (Forbidden ''Cannot mark another user's notification as read'')
            \<and> rows (snd (markAsRead e w uid i)) = rows w)
       \<and> (\<forall>n \<in> set (rows w). nid n = i \<and> userId n = uid \<longrightarrow>
            fst (markAsRead e w uid i) = Inr (n\<lparr>isRead := True\<rparr>)
            \<and> rows (snd (markAsRead e w uid i))
                = map (\<lambda>r. if r = n then n\<lparr>isRead := True\<rparr> else r) (rows w))"
proof (intro conjI impI ballI)
  assume "i \<notin> set (map nid (rows w))"
  then have "find (\<lambda>n. nid n = i) (rows w) = None" by (simp add: find_nid_None)
  with assms show "fst (markAsRead e w uid i) = Inl (NotFound ''Notification not found'')"
    and "rows (snd (markAsRead e w uid i)) = rows w"
    by (simp_all add: markAsRead_def prisma_findUnique_def tick_def)
next
  fix n assume n: "n \<in> set (rows w)" "nid n = i \<and> userId n \<noteq> uid"
  then have "find (\<lambda>r. nid r = i) (rows w) = Some n"
    using find_nid_distinct[OF assms(3) n(1)] by simp
  with assms n show "fst (markAsRead e w uid i)
              = Inl (Forbidden ''Cannot mark another user's notification as read'')"
    and "rows (snd (markAsRead e w uid i)) = rows w"
    by (simp_all add: markAsRead_def prisma_findUnique_def tick_def)
next
  fix n assume n: "n \<in> set (rows w)" "nid n = i \<and> userId n = uid"
  then have f: "find (\<lambda>r. nid r = i) (rows w) = Some n"
    using find_nid_distinct[OF assms(3) n(1)] by simp
  have m: "map (\<lambda>r. if nid r = i then r\<lparr>isRead := True\<rparr> else r) (rows w)
            = map (\<lambda>r. if r = n then n\<lparr>isRead := True\<rparr> else r) (rows w)"
    using assms(3) n by (intro map_cong) (auto simp: distinct_map inj_on_def)
  from assms n f show "fst (markAsRead e w uid i) = Inr (n\<lparr>isRead := True\<rparr>)"
    by (simp add: markAsRead_def prisma_findUnique_def prisma_update_isRead_def tick_def)
  from assms n f m show "rows (snd (markAsRead e w uid i))
                = map (\<lambda>r. if r = n then n\<lparr>isRead := True\<rparr> else r) (rows w)"
    by (simp add: markAsRead_def prisma_findUnique_def prisma_update_isRead_def tick_def)
qed

theorem markAsRead_cases_witness:
  "fst (markAsRead env_up two_users ''alice'' ''zz'') = Inl (NotFound ''Notification not found'')
   \<and> fst (markAsRead env_up two_users ''alice'' ''b'')
       = Inl (Forbidden ''Cannot mark another user's notification as read'')
   \<and> rows (snd (markAsRead env_up two_users ''alice'' ''b'')) = rows two_users
   \<and> fst (markAsRead env_up two_users ''alice'' ''a'') = Inr (example_row ''a'' ''alice'' True 1)
   \<and> rows (snd (markAsRead env_up two_users ''alice'' ''a''))
       = [example_row ''a'' ''alice'' True 1, example_row ''b'' ''bob'' False 2,
          example_row ''c'' ''alice'' False 3]"
proof -
  note th = markAsRead_cases[OF env_up_fault env_up_fault two_users_distinct]
  have "''zz'' \<notin> set (map nid (rows two_users))"
    by (simp add: two_users_rows example_row_def)
  with th[of "''zz''" "''alice''"]
  have 1: "fst (markAsRead env_up two_users ''alice'' ''zz'')
             = Inl (NotFound ''Notification not found'')"
    by blast
  have b: "example_row ''b'' ''bob'' False 2 \<in> set (rows two_users)"
    "nid (example_row ''b'' ''bob'' False 2) = ''b''
     \<and> userId (example_row ''b'' ''bob'' False 2) \<noteq> ''alice''"
    by (simp_all add: two_users_rows example_row_def)
  with th[of "''b''" "''alice''"]
  have 2: "fst (markAsRead env_up two_users ''alice'' ''b'')
             = Inl (Forbidden ''Cannot mark another user's notification as read'')"
    "rows (snd (markAsRead env_up two_users ''alice'' ''b'')) = rows two_users"
    by blast+
  have a: "example_row ''a'' ''alice'' False 1 \<in> set (rows two_users)"
    "nid (example_row ''a'' ''alice'' False 1) = ''a''
     \<and> userId (example_row ''a'' ''alice'' False 1) = ''alice''"
    by (simp_all add: two_users_rows example_row_def)
  with th[of "''a''" "''alice''"]
  have 3: "fst (markAsRead env_up two_users ''alice'' ''a'')
             = Inr ((example_row ''a'' ''alice'' False 1)\<lparr>isRead := True\<rparr>)"
    "rows (snd (markAsRead env_up two_users ''alice'' ''a''))
       = map (\<lambda>r. if r = example_row ''a'' ''alice'' False 1
                   then (example_row ''a'' ''alice'' False 1)\<lparr>isRead := True\<rparr> else r)
           (rows two_users)"
    by blast+
  have 4: "(example_row ''a'' ''alice'' False 1)\<lparr>isRead := True\<rparr> = example_row ''a'' ''alice'' True 1"
    by (simp add: example_row_def)
  have 5: "map (\<lambda>r. if r = example_row ''a'' ''alice'' False 1
                   then example_row ''a'' ''alice'' True 1 else r) (rows two_users)
           = [example_row ''a'' ''alice'' True 1, example_row ''b'' ''bob'' False 2,
              example_row ''c'' ''alice'' False 3]"
    by (simp add: two_users_rows example_row_def)
  from 1 2 3 show ?thesis by (simp only: 4 5 simp_thms)
qed

lemma isRead_update_same: "(r\<lparr>isRead := True\<rparr> = r) = isRead r"
  by (cases r) auto

lemma zip_map_changed:
  "length (filter (\<lambda>(r, r'). r' \<noteq> r) (zip xs (map f xs))) = length (filter (\<lambda>r. f r \<noteq> r) xs)"
  by (induction xs) auto

lemma filter_others_markAll:
  "filter (\<lambda>r. userId r \<noteq> uid)
     (map (\<lambda>r. if userId r = uid \<and> \<not> isRead r then r\<lparr>isRead := True\<rparr> else r) xs)
   = filter (\<lambda>r. userId r \<noteq> uid) xs"
  by (induction xs) auto

lemma no_unread_after_markAll:
  "filter (\<lambda>n. userId n = uid \<and> \<not> isRead n)
     (map (\<lambda>r. if userId r = uid \<and> \<not> isRead r then r\<lparr>isRead := True\<rparr> else r) xs) = []"
  by (induction xs) auto

text \<open>
  Claim C8. With a store that answers, \<open>markAllAsRead\<close> sets \<open>isRead\<close> on every row
  of the caller, leaves the rows of every other user as they were, returns the number of
  rows it changed (the caller's rows that were unread), and the caller's unread count
  right afterwards is 0.
\<close>

theorem markAllAsRead_spec:
  assumes "fault e (calls w) = None" and "fault e (Suc (calls w)) = None"
  shows "\<exists>c w'. markAllAsRead e w uid = (Inr c, w')
           \<and> rows w' = map (\<lambda>r. if userId r = uid then r\<lparr>isRead := True\<rparr> else r) (rows w)
           \<and> filter (\<lambda>r. userId r \<noteq> uid) (rows w') = filter (\<lambda>r. userId r \<noteq> uid) (rows w)
           \<and> c = length (filter (\<lambda>r. userId r = uid \<and> \<not> isRead r) (rows w))
           \<and> c = length (filter (\<lambda>(r, r'). r' \<noteq> r) (zip (rows w) (rows w')))
           \<and> fst (getUnreadCount e w' uid) = Inr 0"
proof -
  define f :: "notification \<Rightarrow> notification"
    where "f = (\<lambda>r. if userId r = uid \<and> \<not> isRead r then r\<lparr>isRead := True\<rparr> else r)"
  define w' where
    "w' = log Info ''Marked all notifications as read'' (tick (w\<lparr>rows := map f (rows w)\<rparr>))"
  define c where "c = length (filter (\<lambda>r. userId r = uid \<and> \<not> isRead r) (rows w))"
  have run: "markAllAsRead e w uid = (Inr c, w')"
    using assms(1) by (simp add: markAllAsRead_def prisma_updateMany_isRead_def f_def w'_def c_def)
  have rows': "rows w' = map f (rows w)"
    by (simp add: w'_def log_def tick_def)
  have calls': "calls w' = Suc (calls w)"
    by (simp add: w'_def log_def tick_def)
  have a: "rows w' = map (\<lambda>r. if userId r = uid then r\<lparr>isRead := True\<rparr> else r) (rows w)"
    unfolding rows' f_def by (intro map_cong) (auto simp: isRead_update_same)
  have b: "filter (\<lambda>r. userId r \<noteq> uid) (rows w') = filter (\<lambda>r. userId r \<noteq> uid) (rows w)"
    unfolding rows' f_def by (rule filter_others_markAll)
  have d: "c = length (filter (\<lambda>(r, r'). r' \<noteq> r) (zip (rows w) (rows w')))"
    unfolding rows' zip_map_changed c_def f_def
    by (intro arg_cong[where f=length] filter_cong) (auto simp: isRead_update_same)
  have "filter (\<lambda>n. userId n = uid \<and> \<not> isRead n) (rows w') = []"
    unfolding rows' f_def by (rule no_unread_after_markAll)
  then have g: "fst (getUnreadCount e w' uid) = Inr 0"
    using assms(2) calls' by (simp add: getUnreadCount_def prisma_count_def)
  have c: "c = length (filter (\<lambda>r. userId r = uid \<and> \<not> isRead r) (rows w))"
    by (simp add: c_def)
  show ?thesis
    by (rule exI[of _ c], rule exI[of _ w']) (intro conjI run a b c d g)
qed

theorem markAllAsRead_spec_witness:
  "\<exists>w'. markAllAsRead env_up two_users ''alice'' = (Inr 2, w')
        \<and> rows w' = [example_row ''a'' ''alice'' True 1, example_row ''b'' ''bob'' False 2,
                      example_row ''c'' ''alice'' True 3]
        \<and> fst (getUnreadCount env_up w' ''alice'') = Inr 0"
proof -
  from markAllAsRead_spec[OF env_up_fault env_up_fault, of two_users "''alice''"]
  obtain c w' where r: "markAllAsRead env_up two_users ''alice'' = (Inr c, w')"
    "rows w' = map (\<lambda>r. if userId r = ''alice'' then r\<lparr>isRead := True\<rparr> else r) (rows two_users)"
    "c = length (filter (\<lambda>r. userId r = ''alice'' \<and> \<not> isRead r) (rows two_users))"
    "fst (getUnreadCount env_up w' ''alice'') = Inr 0"
    by blast
  have "length (filter (\<lambda>r. userId r = ''alice'' \<and> \<not> isRead r) (rows two_users)) = 2"
    by (simp add: two_users_rows example_row_def)
  moreover have "map (\<lambda>r. if userId r = ''alice'' then r\<lparr>isRead := True\<rparr> else r) (rows two_users)
      = [example_row ''a'' ''alice'' True 1, example_row ''b'' ''bob'' False 2,
         example_row ''c'' ''alice'' True 3]"
    by (simp add: two_users_rows example_row_def)
  ultimately show ?thesis using r by (intro exI[of _ w']) simp
qed

lemma rows_createNotification:
  "rows (snd (createNotification e w uid ty ttl msg lnk md)) = rows w
   \<or> (\<exists>n. nid n \<notin> set (map nid (rows w))
          \<and> rows (snd (createNotification e w uid ty ttl msg lnk md)) = rows w @ [n])"
  by (auto simp: createNotification_def prisma_create_def tick_def log_def Let_def split: option.splits)

lemma rows_getNotifications: "rows (snd (getNotifications e w uid lmt ofs)) = rows w"
  by (auto simp: getNotifications_def prisma_findMany_def prisma_count_def tick_def
      split: option.splits sum.splits prod.splits)

lemma rows_getUnreadCount: "rows (snd (getUnreadCount e w uid)) = rows w"
  by (auto simp: getUnreadCount_def prisma_count_def tick_def split: option.splits)

lemma rows_markAsRead:
  "rows (snd (markAsRead e w uid i)) = rows w
   \<or> (\<exists>n. find (\<lambda>r. nid r = i) (rows w) = Some n \<and> userId n = uid
          \<and> rows (snd (markAsRead e w uid i))
              = map (\<lambda>r. if nid r = i then r\<lparr>isRead := True\<rparr> else r) (rows w))"
  by (auto simp: markAsRead_def prisma_findUnique_def prisma_update_isRead_def tick_def
      split: option.splits)

lemma rows_markAllAsRead:
  "rows (snd (markAllAsRead e w uid)) = rows w
   \<or> rows (snd (markAllAsRead e w uid))
       = map (\<lambda>r. if userId r = uid \<and> \<not> isRead r then r\<lparr>isRead := True\<rparr> else r) (rows w)"
  by (auto simp: markAllAsRead_def prisma_updateMany_isRead_def tick_def log_def
      split: option.splits)

lemma rows_deleteNotification:
  "rows (snd (deleteNotification e w uid i)) = rows w
   \<or> (\<exists>n. find (\<lambda>r. nid r = i) (rows w) = Some n \<and> userId n = uid
          \<and> rows (snd (deleteNotification e w uid i)) = filter (\<lambda>r. nid r \<noteq> i) (rows w))"
  by (auto simp: deleteNotification_def prisma_findUnique_def prisma_delete_def tick_def log_def
      split: option.splits)

lemma keeps_same:
  assumes "distinct (map nid xs)" and "r \<in> set xs"
  shows "keeps r c xs xs"
  unfolding keeps_def using assms same_nid_same_row[OF assms] by fastforce

lemma keeps_append:
  assumes "distinct (map nid xs)" and "r \<in> set xs" and "nid n \<notin> set (map nid xs)"
  shows "keeps r c xs (xs @ [n])"
proof -
  have "nid n \<noteq> nid r" using assms(2,3) by auto
  moreover have "\<forall>r' \<in> set xs. nid r' = nid r \<longrightarrow> r'\<lparr>isRead := isRead r\<rparr> = r"
    using same_nid_same_row[OF assms(1,2)] by fastforce
  ultimately show ?thesis
    unfolding keeps_def using assms by simp
qed

lemma keeps_mark:
  assumes d: "distinct (map nid xs)" and r: "r \<in> set xs" and own: "P r \<Longrightarrow> c = Some (userId r)"
  shows "keeps r c xs (map (\<lambda>x. if P x then x\<lparr>isRead := True\<rparr> else x) xs)"
proof -
  let ?g = "\<lambda>x. if P x then x\<lparr>isRead := True\<rparr> else x"
  have 1: "\<forall>r' \<in> set (map ?g xs). nid r' = nid r \<longrightarrow> r'\<lparr>isRead := isRead r\<rparr> = r"
  proof (intro ballI impI)
    fix r' assume a: "r' \<in> set (map ?g xs)" "nid r' = nid r"
    then obtain x where x: "x \<in> set xs" "r' = ?g x" by auto
    have "nid (?g x) = nid x" by simp
    with a x have "nid x = nid r" by simp
    with d r x have "x = r" using same_nid_same_row by blast
    with x show "r'\<lparr>isRead := isRead r\<rparr> = r" by (simp add: isRead_restore)
  qed
  have 2: "r \<notin> set (map ?g xs) \<longrightarrow> c = Some (userId r)"
  proof
    assume nin: "r \<notin> set (map ?g xs)"
    from r have "?g r \<in> ?g ` set xs" by (rule imageI)
    then have mem: "?g r \<in> set (map ?g xs)" by (simp only: set_map)
    have "P r"
    proof (rule ccontr)
      assume "\<not> P r"
      then have "?g r = r" by simp
      with mem nin show False by (simp only:)
    qed
    then show "c = Some (userId r)" by (rule own)
  qed
  have "nid \<circ> ?g = nid" by (auto simp: fun_eq_iff)
  then have 3: "distinct (map nid (map ?g xs))" using d by simp
  from 1 2 3 show ?thesis unfolding keeps_def by blast
qed

lemma keeps_filter:
  assumes d: "distinct (map nid xs)" and r: "r \<in> set xs" and own: "\<not> Q r \<Longrightarrow> c = Some (userId r)"
  shows "keeps r c xs (filter Q xs)"
proof -
  have 1: "\<forall>r' \<in> set (filter Q xs). nid r' = nid r \<longrightarrow> r'\<lparr>isRead := isRead r\<rparr> = r"
    using same_nid_same_row[OF d r] by fastforce
  have 2: "r \<notin> set (filter Q xs) \<longrightarrow> c = Some (userId r)"
    using r own by simp
  have 3: "distinct (map nid (filter Q xs))"
    using d by (rule distinct_map_filter)
  from 1 2 3 show ?thesis unfolding keeps_def by blast
qed

lemma find_nid_owner:
  assumes "distinct (map nid xs)" and "r \<in> set xs"
    and "find (\<lambda>x. nid x = i) xs = Some n" and "nid r = i"
  shows "userId r = userId n"
proof -
  from find_nid_Some[OF assms(3)] have "n \<in> set xs" "nid n = i" by simp_all
  with assms have "n = r" using same_nid_same_row by blast
  then show ?thesis by simp
qed

text \<open>
  Claim C9. For every operation of the service (create, list, unread count, mark read,
  mark all read, delete) and every row \<open>r\<close> stored before it, in a table with distinct
  identifiers: a row that has the identifier of \<open>r\<close> afterwards equals \<open>r\<close> in every
  field but \<open>isRead\<close> (so \<open>userId\<close> is never reassigned); if \<open>r\<close> itself is no
  longer stored (changed or deleted), the operation was invoked by the owner of \<open>r\<close>;
  and the identifiers stay distinct.
\<close>

theorem only_isRead_changes:
  assumes d: "distinct (map nid (rows w))" and r: "r \<in> set (rows w)"
  shows "(\<forall>r' \<in> set (rows (run_op e w op)). nid r' = nid r \<longrightarrow> r'\<lparr>isRead := isRead r\<rparr> = r)
       \<and> (r \<notin> set (rows (run_op e w op)) \<longrightarrow> caller op = Some (userId r))
       \<and> distinct (map nid (rows (run_op e w op)))"
proof -
  have "keeps r (caller op) (rows w) (rows (run_op e w op))"
  proof (cases op)
    case (OpCreate uid ty ttl msg lnk md)
    from rows_createNotification[of e w uid ty ttl msg lnk md] show ?thesis
    proof (elim disjE exE conjE)
      assume "rows (snd (createNotification e w uid ty ttl msg lnk md)) = rows w"
      then show ?thesis
        unfolding OpCreate run_op.simps by (simp only: keeps_same[OF d r])
    next
      fix n assume n: "nid n \<notin> set (map nid (rows w))"
        and rw: "rows (snd (createNotification e w uid ty ttl msg lnk md)) = rows w @ [n]"
      show ?thesis
        unfolding OpCreate run_op.simps rw by (rule keeps_append[OF d r n])
    qed
  next
    case (OpList uid lmt ofs)
    show ?thesis
      unfolding OpList run_op.simps rows_getNotifications by (rule keeps_same[OF d r])
  next
    case (OpUnreadCount uid)
    show ?thesis
      unfolding OpUnreadCount run_op.simps rows_getUnreadCount by (rule keeps_same[OF d r])
  next
    case (OpMarkRead uid i)
    from rows_markAsRead[of e w uid i] show ?thesis
    proof (elim disjE exE conjE)
      assume "rows (snd (markAsRead e w uid i)) = rows w"
      then show ?thesis
        unfolding OpMarkRead run_op.simps by (simp only: keeps_same[OF d r])
    next
      fix n assume n: "find (\<lambda>r. nid r = i) (rows w) = Some n" "userId n = uid"
        and rw: "rows (snd (markAsRead e w uid i))
              = map (\<lambda>r. if nid r = i then r\<lparr>isRead := True\<rparr> else r) (rows w)"
      have "keeps r (Some uid) (rows w)
              (map (\<lambda>r. if nid r = i then r\<lparr>isRead := True\<rparr> else r) (rows w))"
        using find_nid_owner[OF d r n(1)] n(2) by (intro keeps_mark[OF d r]) simp
      then show ?thesis
        unfolding OpMarkRead run_op.simps caller.simps rw .
    qed
  next
    case (OpMarkAll uid)
    from rows_markAllAsRead[of e w uid] show ?thesis
    proof (elim disjE)
      assume "rows (snd (markAllAsRead e w uid)) = rows w"
      then show ?thesis
        unfolding OpMarkAll run_op.simps by (simp only: keeps_same[OF d r])
    next
      assume rw: "rows (snd (markAllAsRead e w uid))
         = map (\<lambda>r. if userId r = uid \<and> \<not> isRead r then r\<lparr>isRead := True\<rparr> else r) (rows w)"
      have "keeps r (Some uid) (rows w)
              (map (\<lambda>r. if userId r = uid \<and> \<not> isRead r then r\<lparr>isRead := True\<rparr> else r) (rows w))"
        by (intro keeps_mark[OF d r]) simp
      then show ?thesis
        unfolding OpMarkAll run_op.simps caller.simps rw .
    qed
  next
    case (OpDelete uid i)
    from rows_deleteNotification[of e w uid i] show ?thesis
    proof (elim disjE exE conjE)
      assume "rows (snd (deleteNotification e w uid i)) = rows w"
      then show ?thesis
        unfolding OpDelete run_op.simps by (simp only: keeps_same[OF d r])
    next
      fix n assume n: "find (\<lambda>r. nid r = i) (rows w) = Some n" "userId n = uid"
        and rw: "rows (snd (deleteNotification e w uid i)) = filter (\<lambda>r. nid r \<noteq> i) (rows w)"
      have "keeps r (Some uid) (rows w) (filter (\<lambda>r. nid r \<noteq> i) (rows w))"
        using find_nid_owner[OF d r n(1)] n(2) by (intro keeps_filter[OF d r]) simp
      then show ?thesis
        unfolding OpDelete run_op.simps caller.simps rw .
    qed
  qed
  then show ?thesis unfolding keeps_def .
qed

theorem only_isRead_changes_witness:
  "example_row ''a'' ''alice'' False 1 \<notin> set (rows (run_op env_up two_users (OpDelete ''alice'' ''a'')))
   \<and> caller (OpDelete ''alice'' ''a'') = Some (userId (example_row ''a'' ''alice'' False 1))
   \<and> example_row ''b'' ''bob'' False 2 \<in> set (rows (run_op env_up two_users (OpMarkAll ''alice'')))
   \<and> distinct (map nid (rows (run_op env_up two_users (OpMarkRead ''alice'' ''a''))))"
proof -
  note d = two_users_distinct
  have a: "example_row ''a'' ''alice'' False 1 \<in> set (rows two_users)" by (simp add: ex_defs)
  have b: "example_row ''b'' ''bob'' False 2 \<in> set (rows two_users)" by (simp add: ex_defs)
  have gone: "example_row ''a'' ''alice'' False 1
                \<notin> set (rows (run_op env_up two_users (OpDelete ''alice'' ''a'')))"
    by (simp add: ex_defs deleteNotification_def prisma_findUnique_def prisma_delete_def
        tick_def log_def)
  from only_isRead_changes[OF d a, of env_up "OpDelete ''alice'' ''a''"] gone
  have 1: "caller (OpDelete ''alice'' ''a'') = Some (userId (example_row ''a'' ''alice'' False 1))"
    by blast
  have "caller (OpMarkAll ''alice'') \<noteq> Some (userId (example_row ''b'' ''bob'' False 2))"
    by (simp add: ex_defs)
  with only_isRead_changes[OF d b, of env_up "OpMarkAll ''alice''"]
  have 2: "example_row ''b'' ''bob'' False 2 \<in> set (rows (run_op env_up two_users (OpMarkAll ''alice'')))"
    by blast
  from only_isRead_changes[OF d a, of env_up "OpMarkRead ''alice'' ''a''"]
  have 3: "distinct (map nid (rows (run_op env_up two_users (OpMarkRead ''alice'' ''a''))))"
    by blast
  from gone 1 2 3 show ?thesis by blast
qed

section \<open>Properties of the delivery coordinator\<close>

lemma channel_deliver_channel [simp]: "channel (fst (deliver_channel e w p ch)) = ch"
  by (simp add: deliver_channel_def deliver_catch_def split: prod.splits sum.splits)

lemma deliver_loop_acc:
  "deliver_loop e w p chs acc
     = (acc @ fst (deliver_loop e w p chs []), snd (deliver_loop e w p chs []))"
proof (induction chs arbitrary: w acc)
  case Nil
  show ?case by simp
next
  case (Cons ch chs)
  obtain r w1 where s: "deliver_channel e w p ch = (r, w1)" by (cases "deliver_channel e w p ch")
  show ?case
    using Cons.IH[of w1 "acc @ [r]"] Cons.IH[of w1 "[r]"] by (simp add: s)
qed

lemma deliver_loop_Cons:
  "deliver_loop e w p (ch # chs) []
     = (fst (deliver_channel e w p ch) # fst (deliver_loop e (snd (deliver_channel e w p ch)) p chs []),
        snd (deliver_loop e (snd (deliver_channel e w p ch)) p chs []))"
proof -
  obtain r w1 where s: "deliver_channel e w p ch = (r, w1)" by (cases "deliver_channel e w p ch")
  show ?thesis using deliver_loop_acc[of e w1 p chs "[r]"] by (simp add: s)
qed

lemma deliver_loop_snoc:
  "deliver_loop e w p (chs @ [ch]) []
     = (fst (deliver_loop e w p chs [])
          @ [fst (deliver_channel e (snd (deliver_loop e w p chs [])) p ch)],
        snd (deliver_channel e (snd (deliver_loop e w p chs [])) p ch))"
proof (induction chs arbitrary: w)
  case Nil
  show ?case by (simp add: split_beta)
next
  case (Cons c chs)
  show ?case
    unfolding append_Cons deliver_loop_Cons[of e w p c] Cons.IH by simp
qed

lemma fst_deliver: "fst (deliver e w p chs) = Inr (fst (deliver_loop e w p chs []))"
  by (simp add: deliver_def split_beta)

lemma snd_deliver: "snd (deliver e w p chs) = snd (deliver_loop e w p chs [])"
  by (simp add: deliver_def split_beta)

lemma length_deliver_loop: "length (fst (deliver_loop e w p chs [])) = length chs"
  by (induction chs arbitrary: w) (simp_all del: deliver_loop.simps(2) add: deliver_loop_Cons)

lemma channels_deliver_loop: "map channel (fst (deliver_loop e w p chs [])) = chs"
  by (induction chs arbitrary: w) (simp_all del: deliver_loop.simps(2) add: deliver_loop_Cons)

lemma nth_deliver_loop:
  "i < length chs \<Longrightarrow>
   fst (deliver_loop e w p chs []) ! i
     = fst (deliver_channel e (snd (deliver_loop e w p (take i chs) [])) p (chs ! i))"
proof (induction chs arbitrary: i rule: rev_induct)
  case Nil
  then show ?case by simp
next
  case (snoc c chs)
  show ?case
  proof (cases "i < length chs")
    case True
    with snoc.IH[of i] show ?thesis
      by (simp add: deliver_loop_snoc nth_append length_deliver_loop)
  next
    case False
    with snoc.prems have "i = length chs" by simp
    then show ?thesis
      by (simp add: deliver_loop_snoc nth_append length_deliver_loop)
  qed
qed



lemma three_outcomes: "length rs = 3 \<Longrightarrow> rs = [rs ! 0, rs ! 1, rs ! 2]"
  by (cases rs; cases "tl rs"; cases "tl (tl rs)") auto


lemmas delivery_defs = deliver_def deliver_channel_def deliver_catch_def deliverInApp_def
  deliverDiscord_def createNotification_def prisma_create_def dm_request_of_def
  store_accepts_def tick_def log_def Let_def



lemma error_message_nonempty:
  assumes "\<forall>k m. fault e k = Some (Error m) \<longrightarrow> m \<noteq> []" and "fault e k = Some t"
  shows "error_message t \<noteq> []"
  using assms by (cases t) auto

lemma deliverInApp_thrown:
  assumes "\<forall>k m. fault e k = Some (Error m) \<longrightarrow> m \<noteq> []"
    and "fst (deliverInApp e w p) = Inl t"
  shows "error_message t \<noteq> []"
proof (cases "fault e (calls w)")
  case None
  with assms(2) have "t = Error ''Unique constraint failed on the fields: (id)''"
    by (simp add: deliverInApp_def createNotification_def prisma_create_def Let_def
        split: if_splits)
  then show ?thesis by simp
next
  case (Some u)
  with assms(2) have "t = u"
    by (simp add: deliverInApp_def createNotification_def prisma_create_def)
  with Some error_message_nonempty[OF assms(1)] show ?thesis by blast
qed

lemma deliverDiscord_thrown:
  assumes "fst (deliverDiscord e w p) = Inl t"
  shows "error_message t \<noteq> []"
  using assms
  by (auto simp: deliverDiscord_def Let_def split: if_splits option.splits)

lemma deliver_channel_in_app:
  "fst (deliver_channel e w p ''in_app'')
     = (case fst (deliverInApp e w p) of
          Inr u \<Rightarrow> \<lparr>channel = ''in_app'', success = True, error = None\<rparr>
        | Inl t \<Rightarrow> \<lparr>channel = ''in_app'', success = False, error = Some (error_message t)\<rparr>)"
  by (simp add: deliver_channel_def deliver_catch_def split: prod.splits sum.splits)

lemma deliver_channel_discord:
  "fst (deliver_channel e w p ''discord'')
     = (case fst (deliverDiscord e w p) of
          Inr u \<Rightarrow> \<lparr>channel = ''discord'', success = True, error = None\<rparr>
        | Inl t \<Rightarrow> \<lparr>channel = ''discord'', success = False, error = Some (error_message t)\<rparr>)"
  by (simp add: deliver_channel_def deliver_catch_def split: prod.splits sum.splits)

lemma deliver_channel_unknown:
  "ch \<noteq> ''in_app'' \<Longrightarrow> ch \<noteq> ''discord'' \<Longrightarrow>
   fst (deliver_channel e w p ch) = \<lparr>channel = ch, success = False, error = Some ''Unknown channel''\<rparr>"
  by (simp add: deliver_channel_def)

lemma deliver_channel_outcome:
  "(success (fst (deliver_channel e w p ch)) \<and> error (fst (deliver_channel e w p ch)) = None)
   \<or> (\<not> success (fst (deliver_channel e w p ch))
       \<and> (\<exists>m. error (fst (deliver_channel e w p ch)) = Some m
                \<and> (ch \<noteq> ''in_app'' \<longrightarrow> m \<noteq> [])))"
proof -
  consider "ch = ''in_app''" | "ch = ''discord''" | "ch \<noteq> ''in_app''" "ch \<noteq> ''discord''"
    by blast
  then show ?thesis
  proof cases
    case 1
    show ?thesis
      unfolding 1 deliver_channel_in_app
      by (cases "fst (deliverInApp e w p)") simp_all
  next
    case 2
    show ?thesis
      unfolding 2 deliver_channel_discord
      using deliverDiscord_thrown[of e w p]
      by (cases "fst (deliverDiscord e w p)") simp_all
  next
    case 3
    then show ?thesis by (simp add: deliver_channel_unknown)
  qed
qed

lemma deliver_channel_outcome_nonempty:
  assumes "\<forall>k m. fault e k = Some (Error m) \<longrightarrow> m \<noteq> []"
    and "\<not> success (fst (deliver_channel e w p ch))"
  shows "\<exists>m. error (fst (deliver_channel e w p ch)) = Some m \<and> m \<noteq> []"
proof (cases "ch = ''in_app''")
  case True
  show ?thesis
    using assms(2) deliverInApp_thrown[OF assms(1), of w p]
    unfolding True deliver_channel_in_app
    by (cases "fst (deliverInApp e w p)") simp_all
next
  case False
  with deliver_channel_outcome[of e w p ch] assms(2) show ?thesis by blast
qed

lemma set_deliver_loop:
  assumes "r \<in> set (fst (deliver_loop e w p chs []))"
  shows "\<exists>w' ch. r = fst (deliver_channel e w' p ch)"
proof -
  from assms obtain i where i: "i < length chs" "r = fst (deliver_loop e w p chs []) ! i"
    by (auto simp: in_set_conv_nth length_deliver_loop)
  with nth_deliver_loop[OF i(1), of e w p] show ?thesis by blast
qed

text \<open>
  Claim C2, as the code has it. \<open>deliver\<close> never leaves by an exception: it returns a
  list with one outcome for each channel, also when every channel failed. What a
  channel's delivery throws is caught and becomes the outcome \<open>success: false\<close> whose
  error description is the message of what was thrown (\<open>Unknown error\<close> for a value
  that is not an \<open>Error\<close>); a successful outcome has no error; an unrecognized channel
  gives \<open>{channel, success: false, error: 'Unknown channel'}\<close>. The description is
  non-empty for every channel but \<open>in_app\<close>, where it is the message of the store's
  error as it is: non-empty whenever the errors of the environment have non-empty
  messages.
\<close>

theorem deliver_never_throws:
  "\<exists>rs. fst (deliver e w p chs) = Inr rs
        \<and> map channel rs = chs
        \<and> (\<forall>r \<in> set rs. success r \<longrightarrow> error r = None)
        \<and> (\<forall>r \<in> set rs. \<not> success r \<longrightarrow>
              (\<exists>m. error r = Some m \<and> (channel r \<noteq> ''in_app'' \<longrightarrow> m \<noteq> [])))
        \<and> (\<forall>r \<in> set rs. channel r \<noteq> ''in_app'' \<and> channel r \<noteq> ''discord'' \<longrightarrow>
              r = \<lparr>channel = channel r, success = False, error = Some ''Unknown channel''\<rparr>)
        \<and> (\<forall>i < length chs. \<forall>t.
              chs ! i = ''in_app''
              \<and> fst (deliverInApp e (snd (deliver e w p (take i chs))) p) = Inl t \<longrightarrow>
              rs ! i = \<lparr>channel = ''in_app'', success = False, error = Some (error_message t)\<rparr>)
        \<and> (\<forall>i < length chs. \<forall>t.
              chs ! i = ''discord''
              \<and> fst (deliverDiscord e (snd (deliver e w p (take i chs))) p) = Inl t \<longrightarrow>
              rs ! i = \<lparr>channel = ''discord'', success = False, error = Some (error_message t)\<rparr>)
        \<and> ((\<forall>k m. fault e k = Some (Error m) \<longrightarrow> m \<noteq> []) \<longrightarrow>
              (\<forall>r \<in> set rs. \<not> success r \<longrightarrow> (\<exists>m. error r = Some m \<and> m \<noteq> [])))"
proof (intro exI[of _ "fst (deliver_loop e w p chs [])"] conjI ballI allI impI)
  show "fst (deliver e w p chs) = Inr (fst (deliver_loop e w p chs []))" by (rule fst_deliver)
  show "map channel (fst (deliver_loop e w p chs [])) = chs" by (rule channels_deliver_loop)
next
  fix r assume r: "r \<in> set (fst (deliver_loop e w p chs []))" and s: "success r"
  from set_deliver_loop[OF r] obtain w' ch where x: "r = fst (deliver_channel e w' p ch)"
    by blast
  from deliver_channel_outcome[of e w' p ch] s show "error r = None"
    unfolding x by blast
next
  fix r assume r: "r \<in> set (fst (deliver_loop e w p chs []))" and s: "\<not> success r"
  from set_deliver_loop[OF r] obtain w' ch where x: "r = fst (deliver_channel e w' p ch)"
    by blast
  have c: "channel (fst (deliver_channel e w' p ch)) = ch" by simp
  from deliver_channel_outcome[of e w' p ch] s
  show "\<exists>m. error r = Some m \<and> (channel r \<noteq> ''in_app'' \<longrightarrow> m \<noteq> [])"
    unfolding x c by blast
next
  fix r assume r: "r \<in> set (fst (deliver_loop e w p chs []))"
    and c: "channel r \<noteq> ''in_app'' \<and> channel r \<noteq> ''discord''"
  from set_deliver_loop[OF r] obtain w' ch where x: "r = fst (deliver_channel e w' p ch)"
    by blast
  then have "channel r = ch" by simp
  with c x show "r = \<lparr>channel = channel r, success = False, error = Some ''Unknown channel''\<rparr>"
    by (simp add: deliver_channel_unknown)
next
  fix i t assume i: "i < length chs"
    and a: "chs ! i = ''in_app''
            \<and> fst (deliverInApp e (snd (deliver e w p (take i chs))) p) = Inl t"
  from nth_deliver_loop[OF i, of e w p] a
  show "fst (deliver_loop e w p chs []) ! i
          = \<lparr>channel = ''in_app'', success = False, error = Some (error_message t)\<rparr>"
    by (simp add: snd_deliver deliver_channel_in_app)
next
  fix i t assume i: "i < length chs"
    and a: "chs ! i = ''discord''
            \<and> fst (deliverDiscord e (snd (deliver e w p (take i chs))) p) = Inl t"
  from nth_deliver_loop[OF i, of e w p] a
  show "fst (deliver_loop e w p chs []) ! i
          = \<lparr>channel = ''discord'', success = False, error = Some (error_message t)\<rparr>"
    by (simp add: snd_deliver deliver_channel_discord)
next
  fix r assume h: "\<forall>k m. fault e k = Some (Error m) \<longrightarrow> m \<noteq> []"
    and r: "r \<in> set (fst (deliver_loop e w p chs []))" and s: "\<not> success r"
  from set_deliver_loop[OF r] obtain w' ch where x: "r = fst (deliver_channel e w' p ch)"
    by blast
  from deliver_channel_outcome_nonempty[OF h, of w' p ch] s
  show "\<exists>m. error r = Some m \<and> m \<noteq> []"
    unfolding x by blast
qed

theorem deliver_never_throws_witness:
  "fst (deliver env_all_down (example_world []) payload0 [''in_app'', ''discord'', ''sms''])
     = Inr [\<lparr>channel = ''in_app'', success = False, error = Some ''connection lost''\<rparr>,
            \<lparr>channel = ''discord'', success = False,
             error = Some ''Discord delivery failed: connection lost''\<rparr>,
            \<lparr>channel = ''sms'', success = False, error = Some ''Unknown channel''\<rparr>]"
proof -
  let ?e = env_all_down and ?w = "example_world []" and ?chs = "[''in_app'', ''discord'', ''sms'']"
  from deliver_never_throws[of ?e ?w payload0 ?chs]
  obtain rs where rs: "fst (deliver ?e ?w payload0 ?chs) = Inr rs"
    and ch: "map channel rs = ?chs"
    and unk: "\<forall>r \<in> set rs. channel r \<noteq> ''in_app'' \<and> channel r \<noteq> ''discord'' \<longrightarrow>
                 r = \<lparr>channel = channel r, success = False, error = Some ''Unknown channel''\<rparr>"
    and ia: "\<forall>i < length ?chs. \<forall>t.
                 ?chs ! i = ''in_app''
                 \<and> fst (deliverInApp ?e (snd (deliver ?e ?w payload0 (take i ?chs))) payload0) = Inl t \<longrightarrow>
                 rs ! i = \<lparr>channel = ''in_app'', success = False, error = Some (error_message t)\<rparr>"
    and di: "\<forall>i < length ?chs. \<forall>t.
                 ?chs ! i = ''discord''
                 \<and> fst (deliverDiscord ?e (snd (deliver ?e ?w payload0 (take i ?chs))) payload0) = Inl t \<longrightarrow>
                 rs ! i = \<lparr>channel = ''discord'', success = False, error = Some (error_message t)\<rparr>"
    by (elim exE conjE) (rule that)
  from arg_cong[OF ch, of length] have len: "length rs = 3" by simp
  have "fst (deliverInApp ?e (snd (deliver ?e ?w payload0 (take 0 ?chs))) payload0)
          = Inl (Error ''connection lost'')"
    by (simp add: delivery_defs env_all_down_def example_world_def payload0_def)
  with ia[rule_format, of 0 "Error ''connection lost''"]
  have r0: "rs ! 0 = \<lparr>channel = ''in_app'', success = False, error = Some ''connection lost''\<rparr>"
    by simp
  have "fst (deliverDiscord ?e (snd (deliver ?e ?w payload0 (take 1 ?chs))) payload0)
          = Inl (Error ''Discord delivery failed: connection lost'')"
    by (simp add: delivery_defs env_all_down_def example_world_def payload0_def)
  with di[rule_format, of 1 "Error ''Discord delivery failed: connection lost''"]
  have r1: "rs ! 1 = \<lparr>channel = ''discord'', success = False,
             error = Some ''Discord delivery failed: connection lost''\<rparr>"
    by simp
  from ch have "map channel rs ! 2 = ''sms''" by simp
  with len have c2: "channel (rs ! 2) = ''sms''" by simp
  from len have mem: "rs ! 2 \<in> set rs" by simp
  from unk[rule_format, OF mem] c2
  have r2: "rs ! 2 = \<lparr>channel = ''sms'', success = False, error = Some ''Unknown channel''\<rparr>"
    by simp
  from three_outcomes[OF len] r0 r1 r2 rs show ?thesis by simp
qed

text \<open>
  The claim C2 as stated, that every failed outcome carries a non-empty error
  description, fails when the store rejects the creation with an \<open>Error\<close> whose
  message is empty: \<open>deliver\<close> passes the message on as it is.
\<close>

theorem deliver_error_nonempty_counterexample:
  "fst (deliver env_empty_message (example_world []) payload0 [''in_app''])
     = Inr [\<lparr>channel = ''in_app'', success = False, error = Some []\<rparr>]"
  by (simp add: delivery_defs env_empty_message_def example_world_def payload0_def)

text \<open>
  Claim C3. Without a configured discord endpoint (\<open>discordServiceUrl\<close> undefined or
  empty), the discord delivery succeeds and does nothing but log a warning: no request,
  no external call, no error. With an endpoint, a post that fails (timeout, HTTP
  status, connection: whatever the HTTP client rejects with) makes \<open>deliverDiscord\<close>
  throw \<open>Discord delivery failed: message\<close>, which \<open>deliver\<close> turns into the
  failure of that channel; \<open>deliver\<close> itself always returns.
\<close>

theorem deliverDiscord_best_effort:
  "(\<not> truthy (discordServiceUrl e) \<longrightarrow>
      deliverDiscord e w p
        = (Inr (), log Warn ''Discord service URL not configured, skipping discord delivery'' w)
      \<and> outbox (snd (deliverDiscord e w p)) = outbox w
      \<and> calls (snd (deliverDiscord e w p)) = calls w
      \<and> fst (deliver e w p [''discord''])
          = Inr [\<lparr>channel = ''discord'', success = True, error = None\<rparr>])
   \<and> (\<forall>t. truthy (discordServiceUrl e) \<and> fault e (calls w) = Some t \<longrightarrow>
      fst (deliverDiscord e w p) = Inl (Error (''Discord delivery failed: '' @ error_message t))
      \<and> fst (deliver e w p [''discord''])
          = Inr [\<lparr>channel = ''discord'', success = False,
                   error = Some (''Discord delivery failed: '' @ error_message t)\<rparr>])
   \<and> (\<exists>rs. fst (deliver e w p chs) = Inr rs)"
proof (intro conjI allI impI)
  assume n: "\<not> truthy (discordServiceUrl e)"
  then show d: "deliverDiscord e w p
        = (Inr (), log Warn ''Discord service URL not configured, skipping discord delivery'' w)"
    by (simp add: deliverDiscord_def)
  show "outbox (snd (deliverDiscord e w p)) = outbox w"
    and "calls (snd (deliverDiscord e w p)) = calls w"
    by (simp_all add: d log_def)
  show "fst (deliver e w p [''discord''])
          = Inr [\<lparr>channel = ''discord'', success = True, error = None\<rparr>]"
    by (simp add: fst_deliver deliver_loop_Cons deliver_channel_discord d
        del: deliver_loop.simps(2))
next
  fix t assume a: "truthy (discordServiceUrl e) \<and> fault e (calls w) = Some t"
  then show d: "fst (deliverDiscord e w p)
                  = Inl (Error (''Discord delivery failed: '' @ error_message t))"
    by (simp add: deliverDiscord_def Let_def)
  show "fst (deliver e w p [''discord''])
          = Inr [\<lparr>channel = ''discord'', success = False,
                   error = Some (''Discord delivery failed: '' @ error_message t)\<rparr>]"
    by (simp add: fst_deliver deliver_loop_Cons deliver_channel_discord d
        del: deliver_loop.simps(2))
next
  show "\<exists>rs. fst (deliver e w p chs) = Inr rs" by (simp add: fst_deliver)
qed

theorem deliverDiscord_best_effort_witness:
  "fst (deliver env_up (example_world []) payload0 [''discord''])
     = Inr [\<lparr>channel = ''discord'', success = True, error = None\<rparr>]
   \<and> outbox (snd (deliverDiscord env_up (example_world []) payload0)) = []
   \<and> fst (deliver (env_post_fails 0) (example_world []) payload0 [''discord''])
     = Inr [\<lparr>channel = ''discord'', success = False,
             error = Some ''Discord delivery failed: connect ECONNREFUSED''\<rparr>]"
proof -
  have a: "\<not> truthy (discordServiceUrl env_up)" by (simp add: env_up_def)
  have b: "truthy (discordServiceUrl (env_post_fails 0))
           \<and> fault (env_post_fails 0) (calls (example_world [])) = Some (Error ''connect ECONNREFUSED'')"
    by (simp add: env_post_fails_def example_world_def)
  have c: "outbox (example_world []) = []" by (simp add: example_world_def)
  from deliverDiscord_best_effort[of env_up "example_world []" payload0 "[]"] a
  have 1: "fst (deliver env_up (example_world []) payload0 [''discord''])
     = Inr [\<lparr>channel = ''discord'', success = True, error = None\<rparr>]"
    and 2: "outbox (snd (deliverDiscord env_up (example_world []) payload0)) = outbox (example_world [])"
    by blast+
  from deliverDiscord_best_effort[of "env_post_fails 0" "example_world []" payload0 "[]"] b
  have 3: "fst (deliver (env_post_fails 0) (example_world []) payload0 [''discord''])
     = Inr [\<lparr>channel = ''discord'', success = False,
             error = Some (''Discord delivery failed: '' @ error_message (Error ''connect ECONNREFUSED''))\<rparr>]"
    by blast
  from 1 2 3 c show ?thesis by simp
qed

section \<open>Properties of the event handlers\<close>

lemma createNotification_accepted:
  "store_accepts e w \<Longrightarrow>
   createNotification e w uid ty ttl msg lnk md
     = (Inr \<lparr>nid = gen_id e (calls w), userId = uid, ntype = ty, title = ttl, message = msg,
             link = lnk, metadata = md, isRead = False, createdAt = now e (calls w)\<rparr>,
        log Info ''Notification created''
          (tick (w\<lparr>rows := rows w @
             [\<lparr>nid = gen_id e (calls w), userId = uid, ntype = ty, title = ttl, message = msg,
               link = lnk, metadata = md, isRead = False, createdAt = now e (calls w)\<rparr>]\<rparr>)))"
  by (simp add: store_accepts_def createNotification_def prisma_create_def Let_def)


lemma then_ack_accepted:
  "store_accepts e w \<Longrightarrow>
   then_ack (createNotification e w uid ty ttl msg lnk md)
     = (Inr (), ack (snd (createNotification e w uid ty ttl msg lnk md)))
   \<and> rows (snd (createNotification e w uid ty ttl msg lnk md))
       = rows w @ [\<lparr>nid = gen_id e (calls w), userId = uid, ntype = ty, title = ttl,
                     message = msg, link = lnk, metadata = md, isRead = False,
                     createdAt = now e (calls w)\<rparr>]
   \<and> calls (snd (createNotification e w uid ty ttl msg lnk md)) = Suc (calls w)
   \<and> acks (snd (createNotification e w uid ty ttl msg lnk md)) = acks w"
  by (simp add: createNotification_accepted then_ack_def log_def tick_def)


lemma handle_due_accepted:
  assumes "creation_due ev" and "store_accepts e w"
  shows "fst (handle e w ev) = Inr ()
       \<and> acks (snd (handle e w ev)) = Suc (acks w)
       \<and> calls (snd (handle e w ev)) = Suc (calls w)
       \<and> length (rows (snd (handle e w ev))) = Suc (length (rows w))"
proof (cases ev)
  case (EV_CAMPAIGN_STATUS_CHANGED p)
  with assms(1) obtain u where u: "cs_newStatus p = ''PAUSED''" "cs_changedBy p = Some u" "u \<noteq> []"
    by (cases "cs_changedBy p") auto
  show ?thesis
    using then_ack_accepted[OF assms(2)]
    by (simp add: EV_CAMPAIGN_STATUS_CHANGED on_CAMPAIGN_STATUS_CHANGED_def u ack_def)
qed (use then_ack_accepted[OF assms(2)] in
      \<open>simp_all add: on_CLIP_APPROVED_def on_CLIP_REJECTED_def on_CAMPAIGN_ENDED_def
         on_PAYOUT_COMPLETED_def on_DISPUTE_CREATED_def on_DISPUTE_RESOLVED_def
         createSystemNotification_def ack_def Let_def\<close>)


lemma handle_not_due:
  assumes "\<not> creation_due ev"
  shows "handle e w ev = (Inr (), ack w)"
proof (cases ev)
  case (EV_CAMPAIGN_STATUS_CHANGED p)
  with assms show ?thesis
    by (cases "cs_changedBy p") (auto simp: on_CAMPAIGN_STATUS_CHANGED_def)
qed (use assms in simp_all)




text \<open>
  Claim C4. The handler of \<open>campaign status changed\<close> creates a notification exactly
  when \<open>newStatus\<close> is \<open>PAUSED\<close> and \<open>changedBy\<close> is present (the handler tests
  \<open>if (payload.changedBy)\<close>: a defined, non-empty string). Then, with a store that takes
  the row, exactly one row is added: of type \<open>CAMPAIGN_ENDING\<close>, titled
  \<open>Campaign Paused\<close>, for the user \<open>changedBy\<close>. For every other event of this type
  the table is unchanged and the store is not even called.
\<close>

theorem campaign_status_changed_notifies:
  "(cs_newStatus p = ''PAUSED'' \<and> truthy (cs_changedBy p) \<and> store_accepts e w \<longrightarrow>
      (\<exists>u. cs_changedBy p = Some u
           \<and> rows (snd (handle e w (EV_CAMPAIGN_STATUS_CHANGED p)))
               = rows w @ [\<lparr>nid = gen_id e (calls w), userId = u, ntype = CAMPAIGN_ENDING,
                             title = ''Campaign Paused'',
                             message = Some ''Campaign has been paused.'', link = None,
                             metadata = Some [(''campaignId'', JString (cs_campaignId p)),
                                              (''oldStatus'', JString (cs_oldStatus p)),
                                              (''newStatus'', JString (cs_newStatus p))],
                             isRead = False, createdAt = now e (calls w)\<rparr>]))
   \<and> (\<not> (cs_newStatus p = ''PAUSED'' \<and> truthy (cs_changedBy p)) \<longrightarrow>
        rows (snd (handle e w (EV_CAMPAIGN_STATUS_CHANGED p))) = rows w
        \<and> calls (snd (handle e w (EV_CAMPAIGN_STATUS_CHANGED p))) = calls w)
   \<and> (store_accepts e w \<longrightarrow>
        (length (rows (snd (handle e w (EV_CAMPAIGN_STATUS_CHANGED p)))) = Suc (length (rows w)))
          = (cs_newStatus p = ''PAUSED'' \<and> truthy (cs_changedBy p)))"
proof -
  have due: "creation_due (EV_CAMPAIGN_STATUS_CHANGED p)
               = (cs_newStatus p = ''PAUSED'' \<and> truthy (cs_changedBy p))"
    by simp
  have 1: "\<exists>u. cs_changedBy p = Some u
           \<and> rows (snd (handle e w (EV_CAMPAIGN_STATUS_CHANGED p)))
               = rows w @ [\<lparr>nid = gen_id e (calls w), userId = u, ntype = CAMPAIGN_ENDING,
                             title = ''Campaign Paused'',
                             message = Some ''Campaign has been paused.'', link = None,
                             metadata = Some [(''campaignId'', JString (cs_campaignId p)),
                                              (''oldStatus'', JString (cs_oldStatus p)),
                                              (''newStatus'', JString (cs_newStatus p))],
                             isRead = False, createdAt = now e (calls w)\<rparr>]"
    if a: "cs_newStatus p = ''PAUSED'' \<and> truthy (cs_changedBy p) \<and> store_accepts e w"
  proof -
    from a obtain u where u: "cs_changedBy p = Some u" "u \<noteq> []"
      by (cases "cs_changedBy p") auto
    from a have acc: "store_accepts e w" by simp
    show ?thesis
      using a u
      by (simp add: on_CAMPAIGN_STATUS_CHANGED_def then_ack_def createNotification_accepted[OF acc]
          ack_def log_def tick_def)
  qed
  have 2: "handle e w (EV_CAMPAIGN_STATUS_CHANGED p) = (Inr (), ack w)"
    if "\<not> (cs_newStatus p = ''PAUSED'' \<and> truthy (cs_changedBy p))"
    using that handle_not_due[of "EV_CAMPAIGN_STATUS_CHANGED p" e w] by simp
  have 3: "length (rows (snd (handle e w (EV_CAMPAIGN_STATUS_CHANGED p)))) = Suc (length (rows w))"
    if "store_accepts e w" "cs_newStatus p = ''PAUSED'' \<and> truthy (cs_changedBy p)"
    using that handle_due_accepted[of "EV_CAMPAIGN_STATUS_CHANGED p" e w] by simp
  show ?thesis
  proof (intro conjI impI)
    assume "cs_newStatus p = ''PAUSED'' \<and> truthy (cs_changedBy p) \<and> store_accepts e w"
    then show "\<exists>u. cs_changedBy p = Some u
           \<and> rows (snd (handle e w (EV_CAMPAIGN_STATUS_CHANGED p)))
               = rows w @ [\<lparr>nid = gen_id e (calls w), userId = u, ntype = CAMPAIGN_ENDING,
                             title = ''Campaign Paused'',
                             message = Some ''Campaign has been paused.'', link = None,
                             metadata = Some [(''campaignId'', JString (cs_campaignId p)),
                                              (''oldStatus'', JString (cs_oldStatus p)),
                                              (''newStatus'', JString (cs_newStatus p))],
                             isRead = False, createdAt = now e (calls w)\<rparr>]"
      by (rule 1)
  next
    assume n: "\<not> (cs_newStatus p = ''PAUSED'' \<and> truthy (cs_changedBy p))"
    show "rows (snd (handle e w (EV_CAMPAIGN_STATUS_CHANGED p))) = rows w"
      and "calls (snd (handle e w (EV_CAMPAIGN_STATUS_CHANGED p))) = calls w"
      unfolding 2[OF n] by (simp_all add: ack_def)
  next
    assume acc: "store_accepts e w"
    show "(length (rows (snd (handle e w (EV_CAMPAIGN_STATUS_CHANGED p)))) = Suc (length (rows w)))
          = (cs_newStatus p = ''PAUSED'' \<and> truthy (cs_changedBy p))"
    proof (cases "cs_newStatus p = ''PAUSED'' \<and> truthy (cs_changedBy p)")
      case True
      with 3[OF acc] show ?thesis by simp
    next
      case False
      with 2[OF False] show ?thesis by (simp add: ack_def)
    qed
  qed
qed

theorem campaign_status_changed_notifies_witness:
  "rows (snd (handle env_up (example_world [])
            (EV_CAMPAIGN_STATUS_CHANGED (status0 ''PAUSED'' (Some ''owner1'')))))
     = [\<lparr>nid = ''n0'', userId = ''owner1'', ntype = CAMPAIGN_ENDING, title = ''Campaign Paused'',
         message = Some ''Campaign has been paused.'', link = None,
         metadata = Some [(''campaignId'', JString ''camp1''), (''oldStatus'', JString ''ACTIVE''),
                          (''newStatus'', JString ''PAUSED'')],
         isRead = False, createdAt = 0\<rparr>]
   \<and> rows (snd (handle env_up (example_world [])
            (EV_CAMPAIGN_STATUS_CHANGED (status0 ''ACTIVE'' (Some ''owner1''))))) = []
   \<and> rows (snd (handle env_up (example_world [])
            (EV_CAMPAIGN_STATUS_CHANGED (status0 ''PAUSED'' None)))) = []"
proof -
  let ?w = "example_world []"
  have acc: "store_accepts env_up ?w"
    by (simp add: store_accepts_def env_up_def example_world_def)
  have w: "rows ?w = []" "calls ?w = 0" by (simp_all add: example_world_def)
  have g: "gen_id env_up 0 = ''n0''" "now env_up 0 = 0" by (simp_all add: env_up_def dec.simps)
  have a: "cs_newStatus (status0 ''PAUSED'' (Some ''owner1'')) = ''PAUSED''
           \<and> truthy (cs_changedBy (status0 ''PAUSED'' (Some ''owner1''))) \<and> store_accepts env_up ?w"
    using acc by (simp add: status0_def)
  from campaign_status_changed_notifies[of "status0 ''PAUSED'' (Some ''owner1'')" env_up ?w] a
  have "\<exists>u. cs_changedBy (status0 ''PAUSED'' (Some ''owner1'')) = Some u
           \<and> rows (snd (handle env_up ?w (EV_CAMPAIGN_STATUS_CHANGED (status0 ''PAUSED'' (Some ''owner1'')))))
               = rows ?w @ [\<lparr>nid = gen_id env_up (calls ?w), userId = u, ntype = CAMPAIGN_ENDING,
                             title = ''Campaign Paused'',
                             message = Some ''Campaign has been paused.'', link = None,
                             metadata = Some [(''campaignId'', JString (cs_campaignId (status0 ''PAUSED'' (Some ''owner1'')))),
                                              (''oldStatus'', JString (cs_oldStatus (status0 ''PAUSED'' (Some ''owner1'')))),
                                              (''newStatus'', JString (cs_newStatus (status0 ''PAUSED'' (Some ''owner1''))))],
                             isRead = False, createdAt = now env_up (calls ?w)\<rparr>]"
    by blast
  then have 1: "rows (snd (handle env_up ?w
            (EV_CAMPAIGN_STATUS_CHANGED (status0 ''PAUSED'' (Some ''owner1'')))))
     = [\<lparr>nid = ''n0'', userId = ''owner1'', ntype = CAMPAIGN_ENDING, title = ''Campaign Paused'',
         message = Some ''Campaign has been paused.'', link = None,
         metadata = Some [(''campaignId'', JString ''camp1''), (''oldStatus'', JString ''ACTIVE''),
                          (''newStatus'', JString ''PAUSED'')],
         isRead = False, createdAt = 0\<rparr>]"
    by (simp add: w g) (simp add: status0_def)
  have b: "\<not> (cs_newStatus (status0 ''ACTIVE'' (Some ''owner1'')) = ''PAUSED''
           \<and> truthy (cs_changedBy (status0 ''ACTIVE'' (Some ''owner1''))))"
    by (simp add: status0_def)
  from campaign_status_changed_notifies[of "status0 ''ACTIVE'' (Some ''owner1'')" env_up ?w] b
  have 2: "rows (snd (handle env_up ?w
            (EV_CAMPAIGN_STATUS_CHANGED (status0 ''ACTIVE'' (Some ''owner1''))))) = rows ?w"
    by blast
  have c: "\<not> (cs_newStatus (status0 ''PAUSED'' None) = ''PAUSED''
           \<and> truthy (cs_changedBy (status0 ''PAUSED'' None)))"
    by (simp add: status0_def)
  from campaign_status_changed_notifies[of "status0 ''PAUSED'' None" env_up ?w] c
  have 3: "rows (snd (handle env_up ?w (EV_CAMPAIGN_STATUS_CHANGED (status0 ''PAUSED'' None))))
             = rows ?w"
    by blast
  from 1 2 3 w show ?thesis by simp
qed

section \<open>Properties of the formatted amount\<close>

lemma rne_close:
  fixes a b :: int
  assumes "0 < b"
  shows "\<bar>2 * (a - rne a b * b)\<bar> \<le> b"
proof -
  define q r where "q = a div b" and "r = a mod b"
  have a: "a = q * b + r" by (simp add: q_def r_def)
  have r: "0 \<le> r" "r < b" using assms by (simp_all add: r_def)
  show ?thesis
  proof (cases "2 * r < b \<or> (2 * r = b \<and> even q)")
    case True
    then have "rne a b = q" by (simp add: rne_def q_def r_def)
    with a r True show ?thesis by auto
  next
    case False
    then have "rne a b = q + 1" by (simp add: rne_def q_def r_def Let_def)
    then have "a - rne a b * b = r - b" using a by (simp add: algebra_simps)
    with r False show ?thesis by auto
  qed
qed

lemma exponent2_le:
  assumes "0 < A" and "A < 100 * 2 ^ 46"
  shows "exponent2 A 100 \<le> 45"
proof -
  have b100: "bitlen 100 = 7" by (simp add: compute_bitlen)
  from assms have "A < 2 ^ 53" by simp
  then have bl: "bitlen A \<le> 53" using bitlen_le_iff_power[of A 53] by simp
  define d where "d = bitlen A - bitlen 100"
  have d46: "d \<le> 46" using bl by (simp add: d_def b100)
  show ?thesis
  proof (cases "0 \<le> d \<and> 100 * 2 ^ nat d \<le> A")
    case True
    then have "(100::int) * 2 ^ nat d < 100 * 2 ^ 46" using assms(2) by linarith
    then have "(2::int) ^ nat d < 2 ^ 46" by simp
    then have "nat d < 46" using power_less_imp_less_exp[of "2::int" "nat d" 46] by simp
    with True have "d \<le> 45" by simp
    moreover have "exponent2 A 100 \<le> d" by (simp add: exponent2_def Let_def d_def)
    ultimately show ?thesis by simp
  next
    case False
    then have "exponent2 A 100 \<le> 45"
      using d46 by (auto simp: exponent2_def Let_def d_def[symmetric] split: if_splits)
    then show ?thesis .
  qed
qed

lemma toFixed_core:
  fixes m X P :: int
  assumes "\<bar>2 * (X - m * 100)\<bar> \<le> 100" and "128 \<le> P" and "X = A * P"
  shows "(200 * m + P) div (2 * P) = A"
proof -
  define r where "r = 200 * m + P - A * (2 * P)"
  have "0 \<le> r" "r < 2 * P" using assms by (auto simp: r_def algebra_simps)
  moreover have "200 * m + P = (2 * P) * A + r" by (simp add: r_def algebra_simps)
  ultimately show ?thesis using assms(2) by (simp add: int_div_pos_eq)
qed


lemma dec_digit: "n < 10 \<Longrightarrow> dec n = [''0123456789'' ! n]"
  by (simp add: dec.simps)

lemma dec_step: "10 \<le> n \<Longrightarrow> dec n = dec (n div 10) @ [''0123456789'' ! (n mod 10)]"
  by (subst dec.simps) simp

lemma dec_nonempty: "dec n \<noteq> []"
  by (subst dec.simps) simp

text \<open>The digits of \<open>toFixed(2)\<close> for the integer \<open>n\<close> of hundredths.\<close>

lemma hundredths_digits:
  "(let m = dec n;
        m' = (if length m \<le> 2 then replicate (3 - length m) (CHR ''0'') @ m else m);
        k = length m'
    in take (k - 2) m' @ ''.'' @ drop (k - 2) m')
   = dec (n div 100) @ ''.'' @ dec (n mod 100 div 10) @ dec (n mod 10)"
proof -
  consider "n < 10" | "10 \<le> n" "n < 100" | "100 \<le> n" by linarith
  then show ?thesis
  proof cases
    case 1
    then have "n div 100 = 0" "n mod 100 div 10 = 0" "n mod 10 = n" by simp_all
    with 1 show ?thesis by (simp add: dec_digit Let_def numeral_3_eq_3)
  next
    case 2
    then have a: "n div 100 = 0" "n mod 100 = n" by simp_all
    from 2 have b: "n div 10 < 10" "n mod 10 < 10" by simp_all
    from 2 have "dec n = [''0123456789'' ! (n div 10), ''0123456789'' ! (n mod 10)]"
      using b by (simp add: dec_step dec_digit)
    then show ?thesis using b by (simp add: a dec_digit Let_def)
  next
    case 3
    then have t: "10 \<le> n" "10 \<le> n div 10" by simp_all
    have d: "n div 10 div 10 = n div 100" by (simp add: div_mult2_eq)
    have "n mod 100 = 10 * (n div 10 mod 10) + n mod 10"
      using mod_mult2_eq[of n 10 10] by simp
    then have e: "n div 10 mod 10 = n mod 100 div 10" by simp
    have "dec n = dec (n div 100) @ [''0123456789'' ! (n mod 100 div 10), ''0123456789'' ! (n mod 10)]"
      using t by (simp add: dec_step[of n] dec_step[of "n div 10"] d e)
    moreover have "n mod 100 div 10 < 10" "n mod 10 < 10" by simp_all
    ultimately show ?thesis
      using dec_nonempty[of "n div 100"]
      by (simp add: dec_digit Let_def)
  qed
qed


lemma fixed_point2_digits:
  "fixed_point2 (num, den)
     = (if num < 0 then ''-'' else [])
         @ dec (nat ((200 * \<bar>num\<bar> + den) div (2 * den)) div 100) @ ''.''
         @ dec (nat ((200 * \<bar>num\<bar> + den) div (2 * den)) mod 100 div 10)
         @ dec (nat ((200 * \<bar>num\<bar> + den) div (2 * den)) mod 10)"
  using hundredths_digits[of "nat ((200 * \<bar>num\<bar> + den) div (2 * den))"]
  by (simp add: fixed_point2_def Let_def)

lemma spec_amount_nat:
  "spec_amount a
     = (if a < 0 then ''-'' else [])
         @ dec (nat \<bar>a\<bar> div 100) @ ''.'' @ dec (nat \<bar>a\<bar> mod 100 div 10) @ dec (nat \<bar>a\<bar> mod 10)"
  by (simp add: spec_amount_def nat_div_distrib nat_mod_distrib)

lemma fixed_point2_round53_div_100:
  assumes "\<bar>a\<bar> < 100 * 2 ^ 46"
  shows "fixed_point2 (round53_div a 100) = spec_amount a"
proof (cases "a = 0")
  case True
  have "round53_div 0 100 = (0, 1)" by (simp add: round53_div_def)
  then show ?thesis
    unfolding True spec_amount_nat by (simp add: fixed_point2_digits)
next
  case False
  define A where "A = \<bar>a\<bar>"
  have A: "0 < A" "A < 100 * 2 ^ 46" using False assms by (simp_all add: A_def)
  define k where "k = nat (52 - exponent2 A 100)"
  define P :: int where "P = 2 ^ k"
  define m where "m = rne (A * P) 100"
  from exponent2_le[OF A] have s: "7 \<le> 52 - exponent2 A 100" by simp
  then have k7: "7 \<le> k" by (simp add: k_def)
  have "(2::int) ^ 7 \<le> 2 ^ k" using k7 by (intro power_increasing) simp_all
  then have P: "128 \<le> P" by (simp add: P_def)
  have close: "\<bar>2 * (A * P - m * 100)\<bar> \<le> 100"
    unfolding m_def by (rule rne_close) simp
  have "1 * 128 \<le> A * P" using A(1) P by (intro mult_mono) simp_all
  then have "128 \<le> A * P" by simp
  moreover from close have "2 * (A * P - m * 100) \<le> 100" by (simp only: abs_le_iff)
  ultimately have m: "0 < m" by (simp add: algebra_simps)
  have js: "round53_div a 100 = (sgn a * m, P)"
    using False s by (simp add: round53_div_def Let_def A_def[symmetric] k_def[symmetric]
        P_def[symmetric] m_def[symmetric])
  have abs: "\<bar>sgn a * m\<bar> = m" using m False by (simp add: abs_mult)
  have neg: "(sgn a * m < 0) = (a < 0)"
    using m False by (cases "a < 0") (simp_all add: mult_less_0_iff)
  have n: "(200 * m + P) div (2 * P) = A"
    using close P by (rule toFixed_core) simp
  show ?thesis
    unfolding js fixed_point2_digits abs neg n spec_amount_nat A_def ..
qed

lemma div100_toFixed2_exact:
  assumes "\<bar>int_of a\<bar> < 100 * 2 ^ 46"
  shows "div100_toFixed2 a = spec_amount (int_of a)"
  unfolding div100_toFixed2_def js_div_100_def
  by (rule fixed_point2_round53_div_100[OF assms])

text \<open>
  The quotient of a safe integer by 100 is below \<open>10^21\<close> in magnitude: \<open>toFixed\<close>
  never prints an exponent for it.
\<close>

lemma exponent2_le_safe:
  assumes "0 < A" and "A < 2 ^ 53"
  shows "exponent2 A 100 \<le> 46"
proof -
  have b100: "bitlen 100 = 7" by (simp add: compute_bitlen)
  from assms(2) have "bitlen A \<le> 53" using bitlen_le_iff_power[of A 53] by simp
  then show ?thesis by (simp add: exponent2_def Let_def b100)
qed

lemma js_div_100_below_exponent:
  "\<exists>num den. js_div_100 a = (num, den) \<and> 0 < den \<and> \<bar>num\<bar> < 10 ^ 21 * den"
proof (cases "int_of a = 0")
  case True
  then show ?thesis by (simp add: js_div_100_def round53_div_def)
next
  case False
  define A where "A = \<bar>int_of a\<bar>"
  have "int_of a \<in> {i. \<bar>i\<bar> < 2 ^ 53}" by (rule int_of)
  then have A: "0 < A" "A < 2 ^ 53" using False by (simp_all add: A_def)
  define k where "k = nat (52 - exponent2 A 100)"
  define P :: int where "P = 2 ^ k"
  define m where "m = rne (A * P) 100"
  from exponent2_le_safe[OF A] have s: "0 \<le> 52 - exponent2 A 100" by simp
  have P: "0 < P" by (simp add: P_def)
  have close: "\<bar>2 * (A * P - m * 100)\<bar> \<le> 100"
    unfolding m_def by (rule rne_close) simp
  have "0 \<le> A * P" using A(1) P by simp
  moreover from close have c: "- 100 \<le> 2 * (A * P - m * 100)" "2 * (A * P - m * 100) \<le> 100"
    by (simp_all only: abs_le_iff) simp_all
  ultimately have m0: "0 \<le> m" by (simp add: algebra_simps)
  define X where "X = A * P"
  have "X < 2 ^ 53 * P" unfolding X_def using A(2) P by (rule mult_strict_right_mono)
  then have "X < 9007199254740992 * P" by simp
  moreover from c(1) have "- 100 \<le> 2 * (X - m * 100)" by (simp only: X_def)
  moreover from P have "1 \<le> P" by simp
  ultimately have "m * 100 < 9007199254741042 * P" by (simp add: algebra_simps)
  also have "\<dots> \<le> 10 ^ 21 * 100 * P" using P by simp
  finally have mb: "m < 10 ^ 21 * P" by simp
  have js: "js_div_100 a = (sgn (int_of a) * m, P)"
    using False s by (simp add: js_div_100_def round53_div_def Let_def A_def[symmetric]
        k_def[symmetric] P_def[symmetric] m_def[symmetric])
  have "\<bar>sgn (int_of a) * m\<bar> = m" using m0 False by (simp add: abs_mult)
  with js P mb show ?thesis by simp
qed

lemma spec_amount_2550: "spec_amount 2550 = ''25.50''"
  by (simp add: spec_amount_def dec.simps)

lemma int_of_Safe: "\<bar>i\<bar> < 2 ^ 53 \<Longrightarrow> int_of (Safe i) = i"
  by (simp add: Safe_inverse)

text \<open>
  Beyond \<open>100 * 2^46\<close> minor units the binary64 quotient no longer resolves
  hundredths: the first amount above the bound, a safe integer, is already printed one
  cent off.
\<close>

lemma bitlen_2_53: "bitlen 7036874417766401 = 53"
proof -
  have "bitlen 7036874417766401 \<le> 53" by (simp add: bitlen_le_iff_power)
  moreover have "53 \<le> bitlen 7036874417766401" by (simp add: bitlen_ge_iff_power)
  ultimately show ?thesis by simp
qed

lemma round53_div_beyond_cents:
  "round53_div 7036874417766401 100 = (4503599627370497, 64)"
proof -
  have b: "bitlen 100 = 7" by (simp add: compute_bitlen)
  have e: "exponent2 7036874417766401 100 = 46"
    by (simp add: exponent2_def bitlen_2_53 b)
  show ?thesis
    by (simp add: round53_div_def e rne_def Let_def)
qed

lemma toFixed2_beyond_cents:
  "div100_toFixed2 (Safe 7036874417766401) = ''70368744177664.02''"
  unfolding div100_toFixed2_def js_div_100_def
  by (simp add: int_of_Safe round53_div_beyond_cents fixed_point2_digits dec.simps)

lemma spec_amount_beyond_cents: "spec_amount 7036874417766401 = ''70368744177664.01''"
  by (simp add: spec_amount_def dec.simps)

text \<open>
  Claim C5, as the code has it. The notification that the handler of \<open>clip approved\<close>
  creates has the message \<open>Your clip has been approved! You earned $A.\<close> where \<open>A\<close> is
  the payout amount: the integer of minor units divided by 100 and written with exactly
  two decimal digits. So the message contains \<open>$\<close> followed by that amount; for
  \<open>paymentAmount: 2550\<close> it contains \<open>$25.50\<close>. This holds for the amounts below
  \<open>100 * 2^46\<close> minor units in magnitude, where the binary64 quotient is exact to the
  hundredth.
\<close>

theorem clip_approved_message_amount:
  assumes "\<bar>int_of (ca_paymentAmount p)\<bar> < 100 * 2 ^ 46" and "store_accepts e w"
  shows "\<exists>n msg. rows (snd (handle e w (EV_CLIP_APPROVED p))) = rows w @ [n]
           \<and> userId n = ca_userId p \<and> ntype n = CLIP_APPROVED \<and> title n = ''Clip Approved''
           \<and> message n = Some msg
           \<and> msg = ''Your clip has been approved! You earned $''
                     @ spec_amount (int_of (ca_paymentAmount p)) @ ''.''
           \<and> sublist (''$'' @ spec_amount (int_of (ca_paymentAmount p))) msg"
proof -
  let ?msg = "''Your clip has been approved! You earned $''
                @ spec_amount (int_of (ca_paymentAmount p)) @ ''.''"
  have m: "clip_approved_message (ca_paymentAmount p) = ?msg"
    by (simp add: clip_approved_message_def div100_toFixed2_exact[OF assms(1)])
  have "?msg = ''Your clip has been approved! You earned ''
                 @ (''$'' @ spec_amount (int_of (ca_paymentAmount p))) @ ''.''"
    by simp
  then have s: "sublist (''$'' @ spec_amount (int_of (ca_paymentAmount p))) ?msg"
    unfolding sublist_def by blast
  let ?n = "\<lparr>nid = gen_id e (calls w), userId = ca_userId p, ntype = CLIP_APPROVED,
              title = ''Clip Approved'', message = Some ?msg, link = None,
              metadata = Some [(''clipId'', JString (ca_clipId p)),
                               (''campaignId'', JString (ca_campaignId p)),
                               (''paymentAmount'', JNumber (int_of (ca_paymentAmount p)))],
              isRead = False, createdAt = now e (calls w)\<rparr>"
  have r: "rows (snd (handle e w (EV_CLIP_APPROVED p))) = rows w @ [?n]"
    by (simp add: on_CLIP_APPROVED_def then_ack_def createNotification_accepted[OF assms(2)]
        m ack_def log_def tick_def del: append.simps)
  show ?thesis
    by (rule exI[of _ ?n], rule exI[of _ ?msg]) (simp add: r s del: append.simps handle.simps)
qed

theorem clip_approved_message_amount_witness:
  "\<exists>n. rows (snd (handle env_up (example_world []) (EV_CLIP_APPROVED clip0))) = [n]
        \<and> message n = Some ''Your clip has been approved! You earned $25.50.''
        \<and> sublist ''$25.50'' ''Your clip has been approved! You earned $25.50.''"
proof -
  have v: "int_of (ca_paymentAmount clip0) = 2550" by (simp add: clip0_def int_of_Safe)
  have a: "\<bar>int_of (ca_paymentAmount clip0)\<bar> < 100 * 2 ^ 46" by (simp add: v)
  have b: "store_accepts env_up (example_world [])"
    by (simp add: store_accepts_def env_up_def example_world_def)
  have c: "spec_amount (int_of (ca_paymentAmount clip0)) = ''25.50''"
    by (simp add: v spec_amount_2550)
  have d: "rows (example_world []) = []" by (simp add: example_world_def)
  from clip_approved_message_amount[OF a b]
  obtain n msg where n: "rows (snd (handle env_up (example_world []) (EV_CLIP_APPROVED clip0)))
                       = rows (example_world []) @ [n]"
    "message n = Some msg"
    "msg = ''Your clip has been approved! You earned $''
             @ spec_amount (int_of (ca_paymentAmount clip0)) @ ''.''"
    "sublist (''$'' @ spec_amount (int_of (ca_paymentAmount clip0))) msg"
    by blast
  from n(3) have e: "msg = ''Your clip has been approved! You earned $25.50.''"
    by (simp add: c)
  from n(4) have "sublist ''$25.50'' msg" by (simp add: c)
  with n(1,2) e d show ?thesis by (intro exI[of _ n]) simp
qed

text \<open>
  The claim C5 as stated, for every \<open>clip approved\<close> event, fails at the first amount
  above the bound: for \<open>paymentAmount: 7036874417766401\<close> the amount is
  \<open>70368744177664.01\<close> and the message says \<open>$70368744177664.02\<close>.
\<close>

theorem clip_approved_amount_counterexample:
  "map message (rows (snd (handle env_up (example_world []) (EV_CLIP_APPROVED clip_beyond))))
     = [Some ''Your clip has been approved! You earned $70368744177664.02.'']
   \<and> spec_amount (int_of (ca_paymentAmount clip_beyond)) = ''70368744177664.01''
   \<and> \<not> sublist ''$70368744177664.01''
         ''Your clip has been approved! You earned $70368744177664.02.''"
proof -
  have v: "int_of (ca_paymentAmount clip_beyond) = 7036874417766401"
    by (simp add: clip_beyond_def int_of_Safe)
  have b: "store_accepts env_up (example_world [])"
    by (simp add: store_accepts_def env_up_def example_world_def)
  have t: "div100_toFixed2 (ca_paymentAmount clip_beyond) = ''70368744177664.02''"
    by (simp add: clip_beyond_def toFixed2_beyond_cents)
  have 1: "map message (rows (snd (handle env_up (example_world []) (EV_CLIP_APPROVED clip_beyond))))
     = [Some ''Your clip has been approved! You earned $70368744177664.02.'']"
    by (simp add: on_CLIP_APPROVED_def then_ack_def createNotification_accepted[OF b]
        clip_approved_message_def t ack_def log_def tick_def)
      (simp add: example_world_def)
  have 2: "spec_amount (int_of (ca_paymentAmount clip_beyond)) = ''70368744177664.01''"
    by (simp add: v spec_amount_beyond_cents)
  have 3: "\<not> sublist ''$70368744177664.01''
         ''Your clip has been approved! You earned $70368744177664.02.''"
    by (simp add: sublist_Cons_right)
  from 1 2 3 show ?thesis by blast
qed

end
